theory Spec2Isabelle imports Complex_Main "HOL-Library.Word" "HOL-Library.Char_ord" "HOL-Library.List_Lexorder"
    "HOL-Library.Sublist"
begin

section \<open>LightwaveExplorer.py: result deserialisation and shard fusion\<close>

text \<open>
  The development follows \<^verbatim>\<open>src/LightwaveExplorer.py\<close>: the constructor of
  \<^verbatim>\<open>lightwaveExplorerResult\<close> (manifest parsing, grid derivation, decoding of the
  field and spectrum binaries, the batch axis, the frequency axes) and the three fusion
  routines \<^verbatim>\<open>loadSplit\<close>, \<^verbatim>\<open>fuseBinaries\<close> and \<^verbatim>\<open>fuseZips\<close>.

  Python integers are \<^typ>\<open>int\<close>, and every exception the code can raise is a value of
  \<open>py_error\<close> on the left of a sum. A Python float is an IEEE-754 binary64 value,
  \<open>pyfloat\<close>: wherever the constructor truncates a float to an integer, divides by one or
  branches on one, the arithmetic is done in binary64 with its rounding, its infinities
  and its NaN. The attribute table keeps for each parameter the decimal value of its
  token as a \<^typ>\<open>real\<close>, and \<open>rnd64\<close> rounds it where the constructor computes with it;
  the entries of the vectors that are only stored (the batch, time, frequency and space
  axes) are given by their exact real value.
\<close>

subsection \<open>Exceptions\<close>

datatype py_error =
    IndexError
  | ValueError
  | ZeroDivisionError
  | OverflowError
  | MemoryError
  | AttributeError
  | KeyError
  | FileNotFoundError
  | BadZipFile
  | OutsideModel

text \<open>
  The last value is no Python exception: it marks the two places where the code would
  go on with a value this development does not describe (the raw bytes of an archive read
  as a flat file, and an array-valued attribute used as a batch parameter).
\<close>

definition then_do :: "'e + 'a \<Rightarrow> ('a \<Rightarrow> 'e + 'b) \<Rightarrow> 'e + 'b" where
  "then_do m f = (case m of Inl e \<Rightarrow> Inl e | Inr x \<Rightarrow> f x)"

subsection \<open>Floats\<close>

text \<open>
  \<^verbatim>\<open>np.round\<close> rounds to the nearest integer and sends a tie to the even neighbour.
\<close>

definition np_round :: "real \<Rightarrow> int" where
  "np_round x =
     (let f = \<lfloor>x\<rfloor>; d = x - of_int f
      in if d < 1 / 2 then f
         else if 1 / 2 < d then f + 1
         else if even f then f else f + 1)"

text \<open>
  A binary64 value is a finite number, an infinity (\<open>Inf True\<close> the positive one) or NaN.
  The sign of zero is not kept: the only operation that could tell the two zeros apart is
  a division by zero, and Python raises there.

  \<open>rnd64\<close> rounds a real to the nearest binary64 value, ties to even. In the binade
  \<open>2 ^ e \<le> \<bar>x\<bar> < 2 ^ (e + 1)\<close> the values are \<open>2 ^ (e - 52)\<close> apart; below \<open>2 ^ - 1022\<close>
  (the subnormal range) they are \<open>2 ^ - 1074\<close> apart; a result of magnitude \<open>2 ^ 1024\<close>
  or more is an infinity.
\<close>

datatype pyfloat = Fin real | Inf bool | NaN

definition rnd64 :: "real \<Rightarrow> pyfloat" where
  "rnd64 x =
     (let e = max \<lfloor>log 2 \<bar>x\<bar>\<rfloor> (- 1022);
          u = 2 powi (e - 52);
          y = of_int (np_round (x / u)) * u
      in if 2 ^ 1024 \<le> \<bar>y\<bar> then Inf (0 < x) else Fin y)"

fun fl_mul :: "pyfloat \<Rightarrow> pyfloat \<Rightarrow> pyfloat" where
  "fl_mul (Fin x) (Fin y) = rnd64 (x * y)"
| "fl_mul (Fin x) (Inf t) = (if x = 0 then NaN else Inf (t = (0 < x)))"
| "fl_mul (Inf s) (Fin y) = (if y = 0 then NaN else Inf (s = (0 < y)))"
| "fl_mul (Inf s) (Inf t) = Inf (s = t)"
| "fl_mul NaN b = NaN"
| "fl_mul a NaN = NaN"

text \<open>The quotient of two floats, for a divisor that is not zero.\<close>

fun fl_div :: "pyfloat \<Rightarrow> pyfloat \<Rightarrow> pyfloat" where
  "fl_div (Fin x) (Fin y) = rnd64 (x / y)"
| "fl_div (Fin x) (Inf t) = Fin 0"
| "fl_div (Inf s) (Fin y) = Inf (s = (0 < y))"
| "fl_div (Inf s) (Inf t) = NaN"
| "fl_div NaN b = NaN"
| "fl_div a NaN = NaN"

fun fl_add :: "pyfloat \<Rightarrow> pyfloat \<Rightarrow> pyfloat" where
  "fl_add (Fin x) (Fin y) = rnd64 (x + y)"
| "fl_add (Fin x) (Inf t) = Inf t"
| "fl_add (Inf s) (Fin y) = Inf s"
| "fl_add (Inf s) (Inf t) = (if s = t then Inf s else NaN)"
| "fl_add NaN b = NaN"
| "fl_add a NaN = NaN"

text \<open>\<^verbatim>\<open>np.round\<close> on a float: the nearest integer is again a binary64 value.\<close>

fun fl_round :: "pyfloat \<Rightarrow> pyfloat" where
  "fl_round (Fin x) = Fin (of_int (np_round x))"
| "fl_round (Inf s) = Inf s"
| "fl_round NaN = NaN"

text \<open>
  \<^verbatim>\<open>int(x)\<close> on a float truncates towards zero; it raises \<^verbatim>\<open>OverflowError\<close> on an
  infinity and \<^verbatim>\<open>ValueError\<close> on NaN.
\<close>

fun py_int :: "pyfloat \<Rightarrow> py_error + int" where
  "py_int (Fin x) = Inr (if 0 \<le> x then \<lfloor>x\<rfloor> else \<lceil>x\<rceil>)"
| "py_int (Inf s) = Inl OverflowError"
| "py_int NaN = Inl ValueError"

text \<open>Python's division of floats raises on a zero divisor.\<close>

definition py_truediv :: "pyfloat \<Rightarrow> pyfloat \<Rightarrow> py_error + pyfloat" where
  "py_truediv a b = (if b = Fin 0 then Inl ZeroDivisionError else Inr (fl_div a b))"

text \<open>
  An integer operand of a float operation is converted first, and an integer too large
  for a float raises \<^verbatim>\<open>OverflowError\<close>; so does the quotient \<^verbatim>\<open>a / b\<close> of two
  integers, which Python rounds correctly.
\<close>

definition int_to_float :: "int \<Rightarrow> py_error + pyfloat" where
  "int_to_float n =
     (case rnd64 (of_int n) of Inf s \<Rightarrow> Inl OverflowError | y \<Rightarrow> Inr y)"

definition int_truediv :: "int \<Rightarrow> int \<Rightarrow> py_error + pyfloat" where
  "int_truediv a b =
     (if b = 0 then Inl ZeroDivisionError
      else case rnd64 (of_int a / of_int b) of Inf s \<Rightarrow> Inl OverflowError | y \<Rightarrow> Inr y)"

subsection \<open>Grid dimensions (lines 114--124)\<close>

definition MIN_GRIDDIM :: int where
  "MIN_GRIDDIM = 8"

record grid =
  Ntime :: int
  Nfreq :: int
  fStep :: pyfloat
  Nspace :: int
  Nspace2 :: int
  Ngrid :: int

text \<open>
  The six assignments of lines 116--124, in the order of the source. Each division and
  each \<^verbatim>\<open>int\<close> is a point where the constructor can raise.
\<close>

definition derive_grid ::
  "pyfloat \<Rightarrow> pyfloat \<Rightarrow> pyfloat \<Rightarrow> pyfloat \<Rightarrow> pyfloat \<Rightarrow> int \<Rightarrow> py_error + grid" where
  "derive_grid timeSpan timeStep spatialWidth spatialHeight spatialStep symmetryType =
     then_do (py_truediv timeSpan (fl_mul (Fin (of_int MIN_GRIDDIM)) timeStep)) (\<lambda>qt.
     then_do (py_int (fl_mul (Fin (of_int MIN_GRIDDIM)) (fl_round qt))) (\<lambda>ntime.
     then_do (int_truediv ntime 2) (\<lambda>half.
     then_do (py_int (fl_add half (Fin 1))) (\<lambda>nfreq.
     then_do (int_to_float ntime) (\<lambda>nt.
     then_do (py_truediv (Fin 1) (fl_mul nt timeStep)) (\<lambda>fstep.
     then_do (py_truediv spatialWidth (fl_mul (Fin (of_int MIN_GRIDDIM)) spatialStep)) (\<lambda>qs.
     then_do (py_int (fl_mul (Fin (of_int MIN_GRIDDIM)) (fl_round qs))) (\<lambda>nspace.
     then_do (if symmetryType = 2 \<or> symmetryType = 4
              then then_do (py_truediv spatialHeight
                              (fl_mul (Fin (of_int MIN_GRIDDIM)) spatialStep)) (\<lambda>qh.
                     py_int (fl_mul (Fin (of_int MIN_GRIDDIM)) (fl_round qh)))
              else Inr 1) (\<lambda>nspace2.
       Inr \<lparr>Ntime = ntime, Nfreq = nfreq, fStep = fstep,
            Nspace = nspace, Nspace2 = nspace2,
            Ngrid = ntime * nspace * nspace2\<rparr>)))))))))"


lemma then_do_Inl: "then_do (Inl e) f = Inl e"
  by (simp add: then_do_def)

lemma then_do_Inr_simp: "then_do (Inr x) f = f x"
  by (simp add: then_do_def)

lemma np_round_of_int [simp]: "np_round (of_int k) = k"
  by (simp add: np_round_def Let_def)

lemma np_round_zero_bound: "np_round z = 0 \<Longrightarrow> \<bar>z\<bar> < 1"
  by (auto simp: np_round_def Let_def split: if_splits) linarith+

lemma floor_log2_bounds:
  assumes "0 < a"
  shows "2 powi \<lfloor>log 2 a\<rfloor> \<le> a" and "a < 2 powi (\<lfloor>log 2 a\<rfloor> + 1)"
proof -
  have "of_int \<lfloor>log 2 a\<rfloor> \<le> log 2 a" by simp
  then have "2 powr (of_int \<lfloor>log 2 a\<rfloor>) \<le> a"
    using assms le_log_iff [of 2 a "of_int \<lfloor>log 2 a\<rfloor>"] by simp
  then show "2 powi \<lfloor>log 2 a\<rfloor> \<le> a" by (simp add: powr_real_of_int')
  have "log 2 a < of_int \<lfloor>log 2 a\<rfloor> + 1" by (rule real_of_int_floor_add_one_gt)
  then have "\<not> of_int (\<lfloor>log 2 a\<rfloor> + 1) \<le> log 2 a" by (simp add: not_le)
  then have "\<not> 2 powr (of_int (\<lfloor>log 2 a\<rfloor> + 1)) \<le> a"
    using assms le_log_iff [of 2 a "of_int (\<lfloor>log 2 a\<rfloor> + 1)"] by simp
  moreover have "(2::real) powr (of_int (\<lfloor>log 2 a\<rfloor> + 1)) = 2 powi (\<lfloor>log 2 a\<rfloor> + 1)"
    by (rule powr_real_of_int') simp_all
  ultimately show "a < 2 powi (\<lfloor>log 2 a\<rfloor> + 1)"
    by (simp only: not_le)
qed

lemma floor_log2_less:
  assumes "0 < a" and "a < 2 powi n"
  shows "\<lfloor>log 2 a\<rfloor> < n"
proof (rule ccontr)
  assume "\<not> \<lfloor>log 2 a\<rfloor> < n"
  then have "n \<le> \<lfloor>log 2 a\<rfloor>" by simp
  then have "(2::real) powi n \<le> 2 powi \<lfloor>log 2 a\<rfloor>"
    by (intro power_int_increasing) simp_all
  with floor_log2_bounds(1) [OF assms(1)] assms(2) show False by simp
qed

text \<open>Dyadic rationals with a 53-bit numerator are doubles: rounding leaves them alone.\<close>

lemma rnd64_dyadic:
  assumes m: "\<bar>m\<bar> < 2 ^ 53" and j: "j \<le> 1074"
  shows "rnd64 (of_int m / 2 ^ j) = Fin (of_int m / 2 ^ j)"
proof (cases "m = 0")
  case True
  have "np_round 0 = 0" using np_round_of_int [of 0] by simp
  with True show ?thesis by (simp add: rnd64_def Let_def)
next
  case False
  let ?x = "of_int m / 2 ^ j :: real"
  let ?e = "max \<lfloor>log 2 \<bar>?x\<bar>\<rfloor> (- 1022)"
  have pos: "0 < \<bar>?x\<bar>" using False by simp
  have "\<bar>?x\<bar> = of_int \<bar>m\<bar> / 2 ^ j" by (simp add: abs_divide)
  also have "\<dots> < 2 ^ 53 / 2 ^ j"
  proof -
    have "(of_int \<bar>m\<bar> :: real) < of_int (2 ^ 53)" using m by (simp only: of_int_less_iff)
    then show ?thesis by (simp add: divide_strict_right_mono)
  qed
  also have "\<dots> = 2 powi (53 - int j)"
    by (simp add: power_int_diff)
  finally have "\<bar>?x\<bar> < 2 powi (53 - int j)" .
  from floor_log2_less [OF pos this] have e1: "\<lfloor>log 2 \<bar>?x\<bar>\<rfloor> \<le> 52 - int j" by simp
  have e2: "?e \<le> 52 - int j" using e1 j by simp
  define d where "d = nat (52 - int j - ?e)"
  have d: "int d = 52 - int j - ?e" using e2 by (simp add: d_def)
  have u: "(2::real) powi (?e - 52) = 1 / (2 ^ j * 2 ^ d)"
  proof -
    have "?e - 52 = - int (j + d)" using d by simp
    then have "(2::real) powi (?e - 52) = 2 powi (- int (j + d))" by simp
    also have "\<dots> = 1 / 2 ^ (j + d)"
      by (simp only: power_int_minus power_int_of_nat inverse_eq_divide)
    finally show ?thesis by (simp add: power_add)
  qed
  have q: "?x / 2 powi (?e - 52) = of_int (m * 2 ^ d)"
    unfolding u by simp
  have y: "of_int (np_round (?x / 2 powi (?e - 52))) * 2 powi (?e - 52) = ?x"
    unfolding q np_round_of_int unfolding u by simp
  have "\<bar>?x\<bar> \<le> of_int \<bar>m\<bar>"
  proof -
    have "(1::real) \<le> 2 ^ j" by simp
    then have "of_int \<bar>m\<bar> / 2 ^ j \<le> (of_int \<bar>m\<bar> :: real) / 1"
      by (intro divide_left_mono) simp_all
    then show ?thesis by (simp add: abs_divide)
  qed
  also have "(of_int \<bar>m\<bar> :: real) < of_int (2 ^ 53)" using m by (simp only: of_int_less_iff)
  also have "(of_int (2 ^ 53) :: real) \<le> 2 ^ 1024"
    by (simp add: power_increasing)
  finally have small: "\<not> 2 ^ 1024 \<le> \<bar>?x\<bar>" by simp
  show ?thesis
    unfolding rnd64_def Let_def y using small by simp
qed

lemma rnd64_int: "\<bar>k\<bar> < 2 ^ 53 \<Longrightarrow> rnd64 (of_int k) = Fin (of_int k)"
  using rnd64_dyadic [of k 0] by simp

text \<open>No real at or above the least positive double rounds to zero.\<close>

lemma rnd64_nonzero:
  assumes "1 / 2 ^ 1074 \<le> \<bar>x\<bar>"
  shows "rnd64 x \<noteq> Fin 0"
proof -
  let ?e = "max \<lfloor>log 2 \<bar>x\<bar>\<rfloor> (- 1022)"
  let ?u = "(2::real) powi (?e - 52)"
  have pos: "0 < \<bar>x\<bar>" using assms by (smt (verit) divide_pos_pos zero_less_power)
  have upos: "0 < ?u" by simp
  have "?u \<le> \<bar>x\<bar>"
  proof (cases "- 1022 \<le> \<lfloor>log 2 \<bar>x\<bar>\<rfloor>")
    case True
    then have "?e = \<lfloor>log 2 \<bar>x\<bar>\<rfloor>" by simp
    moreover have "(2::real) powi (\<lfloor>log 2 \<bar>x\<bar>\<rfloor> - 52) \<le> 2 powi \<lfloor>log 2 \<bar>x\<bar>\<rfloor>"
      by (intro power_int_increasing) simp_all
    ultimately show ?thesis using floor_log2_bounds(1) [OF pos] by simp
  next
    case False
    then have "?e = - 1022" by simp
    then have "?u = 2 powi (- 1074)" by simp
    also have "\<dots> = 1 / 2 ^ 1074" by (simp add: power_int_minus field_simps)
    finally show ?thesis using assms by simp
  qed
  then have "1 \<le> \<bar>x / ?u\<bar>" using upos by (simp add: abs_divide le_divide_eq)
  then have "np_round (x / ?u) \<noteq> 0" using np_round_zero_bound [of "x / ?u"] by auto
  then have "of_int (np_round (x / ?u)) * ?u \<noteq> 0" using upos by simp
  then show ?thesis by (auto simp: rnd64_def Let_def)
qed

lemma floor_log2_ge:
  assumes "2 powi n \<le> a"
  shows "n \<le> \<lfloor>log 2 a\<rfloor>"
proof (rule ccontr)
  assume "\<not> n \<le> \<lfloor>log 2 a\<rfloor>"
  then have "\<lfloor>log 2 a\<rfloor> + 1 \<le> n" by simp
  then have "(2::real) powi (\<lfloor>log 2 a\<rfloor> + 1) \<le> 2 powi n"
    by (intro power_int_increasing) simp_all
  moreover have "0 < a"
  proof -
    have "(0::real) < 2 powi n" by simp
    with assms show ?thesis by linarith
  qed
  ultimately show False using floor_log2_bounds(2) [of a] assms by linarith
qed

lemma rnd64_zero [simp]: "rnd64 0 = Fin 0"
  using rnd64_int [of 0] by simp

lemma rnd64_not_NaN [simp]: "rnd64 x \<noteq> NaN"
  by (simp add: rnd64_def Let_def)


lemma py_int_of_int [simp]: "py_int (Fin (of_int k)) = Inr k"
  by simp




lemma int_truediv_half:
  assumes "\<bar>n\<bar> < 2 ^ 53" and "8 dvd n"
  shows "int_truediv n 2 = Inr (Fin (of_int (n div 2)))"
proof -
  from assms(2) obtain k where k: "n = 8 * k" by (auto simp: dvd_def)
  have b: "\<bar>4 * k\<bar> < 2 ^ 53" using assms(1) k by simp
  have "(of_int n :: real) / of_int 2 = of_int (4 * k)" by (simp add: k)
  then have "int_truediv n 2 = Inr (Fin (of_int (4 * k)))"
    unfolding int_truediv_def by (simp only: rnd64_int [OF b]) simp
  then show ?thesis by (simp add: k)
qed

lemma py_int_add_one:
  assumes "\<bar>j + 1\<bar> < 2 ^ 53"
  shows "py_int (fl_add (Fin (of_int j)) (Fin 1)) = Inr (j + 1)"
proof -
  have "fl_add (Fin (of_int j)) (Fin 1) = Fin (of_int (j + 1))"
    using rnd64_int [OF assms] by simp
  then show ?thesis by (simp only: py_int_of_int)
qed

lemma int_to_float_exact: "\<bar>n\<bar> < 2 ^ 53 \<Longrightarrow> int_to_float n = Inr (Fin (of_int n))"
  by (simp add: int_to_float_def rnd64_int)

lemma grid_quotient_ok:
  assumes "1 / 2 ^ 1074 \<le> step"
  shows "py_truediv a (fl_mul (Fin (of_int MIN_GRIDDIM)) (Fin step))
     = Inr (fl_div a (fl_mul (Fin 8) (Fin step)))"
proof -
  have "(0::real) < 1 / 2 ^ 1074" by simp
  with assms have "0 < step" by linarith
  with assms have "1 / 2 ^ 1074 \<le> \<bar>8 * step\<bar>" by simp
  from rnd64_nonzero [OF this] show ?thesis
    by (simp add: py_truediv_def MIN_GRIDDIM_def)
qed

lemma grid_extent_ok:
  assumes "\<bar>np_round q\<bar> < 2 ^ 50"
  shows "py_int (fl_mul (Fin (of_int MIN_GRIDDIM)) (fl_round (Fin q))) = Inr (8 * np_round q)"
proof -
  have "\<bar>8 * np_round q\<bar> < 2 ^ 53" using assms by simp
  from rnd64_int [OF this]
  have "fl_mul (Fin (of_int MIN_GRIDDIM)) (fl_round (Fin q)) = Fin (of_int (8 * np_round q))"
    by (simp add: MIN_GRIDDIM_def)
  then show ?thesis by (simp only: py_int_of_int)
qed

lemma frequency_step_ok:
  assumes "1 / 2 ^ 1074 \<le> step" and "k \<noteq> 0"
  shows "py_truediv (Fin 1) (fl_mul (Fin (of_int k)) (Fin step))
     = Inr (fl_div (Fin 1) (fl_mul (Fin (of_int k)) (Fin step)))"
proof -
  have "(0::real) < 1 / 2 ^ 1074" by simp
  with assms have s: "0 < step" by linarith
  have "(1::real) \<le> \<bar>of_int k\<bar>" using assms(2) by (simp flip: of_int_abs)
  then have "1 * step \<le> \<bar>of_int k\<bar> * step" using s by (intro mult_right_mono) simp_all
  then have "step \<le> \<bar>of_int k\<bar> * step" by simp
  with assms(1) have "1 / 2 ^ 1074 \<le> \<bar>of_int k\<bar> * step" by (rule order_trans)
  moreover have "\<bar>of_int k * step\<bar> = \<bar>of_int k\<bar> * step" using s by (simp add: abs_mult)
  ultimately have "1 / 2 ^ 1074 \<le> \<bar>of_int k * step\<bar>" by (simp only:)
  from rnd64_nonzero [OF this] show ?thesis by (simp add: py_truediv_def)
qed

lemma derive_grid_ok:
  assumes st: "1 / 2 ^ 1074 \<le> timeStep" and ss: "1 / 2 ^ 1074 \<le> spatialStep"
    and qt: "fl_div (Fin timeSpan) (fl_mul (Fin 8) (Fin timeStep)) = Fin qt"
    and qs: "fl_div (Fin spatialWidth) (fl_mul (Fin 8) (Fin spatialStep)) = Fin qs"
    and qh: "symmetryType = 2 \<or> symmetryType = 4 \<longrightarrow>
             fl_div (Fin spatialHeight) (fl_mul (Fin 8) (Fin spatialStep)) = Fin qh
             \<and> \<bar>np_round qh\<bar> < 2 ^ 50"
    and nz: "np_round qt \<noteq> 0"
    and bt: "\<bar>np_round qt\<bar> < 2 ^ 50" and bs: "\<bar>np_round qs\<bar> < 2 ^ 50"
  shows "derive_grid (Fin timeSpan) (Fin timeStep) (Fin spatialWidth) (Fin spatialHeight)
           (Fin spatialStep) symmetryType =
     Inr \<lparr>Ntime = 8 * np_round qt,
          Nfreq = 4 * np_round qt + 1,
          fStep = fl_div (Fin 1) (fl_mul (Fin (of_int (8 * np_round qt))) (Fin timeStep)),
          Nspace = 8 * np_round qs,
          Nspace2 = (if symmetryType = 2 \<or> symmetryType = 4 then 8 * np_round qh else 1),
          Ngrid = 8 * np_round qt * (8 * np_round qs)
                  * (if symmetryType = 2 \<or> symmetryType = 4 then 8 * np_round qh else 1)\<rparr>"
proof -
  let ?n = "8 * np_round qt"
  have b: "\<bar>?n\<bar> < 2 ^ 53" "\<bar>4 * np_round qt + 1\<bar> < 2 ^ 53" using bt by simp_all
  have n0: "?n \<noteq> 0" using nz by simp
  have h: "?n div 2 = 4 * np_round qt" by simp
  have dv: "8 dvd ?n" by simp
  note E1 = grid_quotient_ok [OF st, of "Fin timeSpan", unfolded qt]
  note E2 = grid_extent_ok [OF bt]
  note E3 = int_truediv_half [OF b(1) dv, unfolded h]
  note E4 = py_int_add_one [OF b(2)]
  note E5 = int_to_float_exact [OF b(1)]
  note E6 = frequency_step_ok [OF st n0]
  note E7 = grid_quotient_ok [OF ss, of "Fin spatialWidth", unfolded qs]
  note E8 = grid_extent_ok [OF bs]
  show ?thesis
  proof (cases "symmetryType = 2 \<or> symmetryType = 4")
    case True
    with qh have q: "fl_div (Fin spatialHeight) (fl_mul (Fin 8) (Fin spatialStep)) = Fin qh"
      and bh: "\<bar>np_round qh\<bar> < 2 ^ 50" by simp_all
    note E9 = grid_quotient_ok [OF ss, of "Fin spatialHeight", unfolded q]
    note E10 = grid_extent_ok [OF bh]
    show ?thesis
      unfolding derive_grid_def
      by (simp only: E1 E2 E3 E4 E5 E6 E7 E8 E9 E10 then_do_Inr_simp True if_True)
  next
    case False
    show ?thesis
      unfolding derive_grid_def
      by (simp only: E1 E2 E3 E4 E5 E6 E7 E8 then_do_Inr_simp False if_False)
  qed
qed

text \<open>
  Claim C2, amended. The parameters are finite binary64 values, the two steps positive.
  \<open>qt\<close>, \<open>qs\<close> and \<open>qh\<close> are the quotients \<^verbatim>\<open>span / (8 * step)\<close> as line 116, 119 and 121
  compute them, in binary64; they are finite, round to less than \<open>2 ^ 50\<close> in magnitude,
  and \<open>qt\<close> does not round to zero. Then the constructor derives
  \<open>Ntime = 8 * round qt\<close>, \<open>Nfreq = Ntime / 2 + 1\<close>, \<open>fStep = 1 / (Ntime * timeStep)\<close>
  (in binary64), \<open>Nspace = 8 * round qs\<close>, \<open>Nspace2 = 8 * round qh\<close> for symmetry types 2
  and 4 and 1 otherwise, and \<open>Ngrid = Ntime * Nspace * Nspace2\<close>; \<open>Ntime\<close> and \<open>Nspace\<close>
  are multiples of 8; and a quotient \<open>qt\<close> of 12.5 (a ratio of 100 between span and step)
  gives \<open>Ntime = 96\<close> and \<open>Nfreq = 49\<close>. Determinism is the fact that \<open>derive_grid\<close> is a
  function of its six arguments.
\<close>

theorem C2_grid_derivation:
  assumes "1 / 2 ^ 1074 \<le> timeStep" and "1 / 2 ^ 1074 \<le> spatialStep"
    and "fl_div (Fin timeSpan) (fl_mul (Fin 8) (Fin timeStep)) = Fin qt"
    and "fl_div (Fin spatialWidth) (fl_mul (Fin 8) (Fin spatialStep)) = Fin qs"
    and "symmetryType = 2 \<or> symmetryType = 4 \<longrightarrow>
           fl_div (Fin spatialHeight) (fl_mul (Fin 8) (Fin spatialStep)) = Fin qh
           \<and> \<bar>np_round qh\<bar> < 2 ^ 50"
    and "np_round qt \<noteq> 0"
    and "\<bar>np_round qt\<bar> < 2 ^ 50" and "\<bar>np_round qs\<bar> < 2 ^ 50"
  shows "\<exists>g. derive_grid (Fin timeSpan) (Fin timeStep) (Fin spatialWidth) (Fin spatialHeight)
               (Fin spatialStep) symmetryType = Inr g
     \<and> Ntime g = 8 * np_round qt
     \<and> Nfreq g = Ntime g div 2 + 1
     \<and> fStep g = fl_div (Fin 1) (fl_mul (Fin (of_int (Ntime g))) (Fin timeStep))
     \<and> Nspace g = 8 * np_round qs
     \<and> Nspace2 g = (if symmetryType = 2 \<or> symmetryType = 4 then 8 * np_round qh else 1)
     \<and> Ngrid g = Ntime g * Nspace g * Nspace2 g
     \<and> 8 dvd Ntime g \<and> 8 dvd Nspace g
     \<and> (qt = 25 / 2 \<longrightarrow> Ntime g = 96 \<and> Nfreq g = 49)"
proof -
  let ?g = "\<lparr>Ntime = 8 * np_round qt,
          Nfreq = 4 * np_round qt + 1,
          fStep = fl_div (Fin 1) (fl_mul (Fin (of_int (8 * np_round qt))) (Fin timeStep)),
          Nspace = 8 * np_round qs,
          Nspace2 = (if symmetryType = 2 \<or> symmetryType = 4 then 8 * np_round qh else 1),
          Ngrid = 8 * np_round qt * (8 * np_round qs)
                  * (if symmetryType = 2 \<or> symmetryType = 4 then 8 * np_round qh else 1)\<rparr>"
  have run: "derive_grid (Fin timeSpan) (Fin timeStep) (Fin spatialWidth) (Fin spatialHeight)
               (Fin spatialStep) symmetryType = Inr ?g"
    by (rule derive_grid_ok [OF assms])
  have ex: "Ntime ?g = 96 \<and> Nfreq ?g = 49" if "qt = 25 / 2"
  proof -
    have "np_round qt = 12" unfolding that by (simp add: np_round_def Let_def)
    then show ?thesis by simp
  qed
  have "Ntime ?g = 8 * np_round qt
     \<and> Nfreq ?g = Ntime ?g div 2 + 1
     \<and> fStep ?g = fl_div (Fin 1) (fl_mul (Fin (of_int (Ntime ?g))) (Fin timeStep))
     \<and> Nspace ?g = 8 * np_round qs
     \<and> Nspace2 ?g = (if symmetryType = 2 \<or> symmetryType = 4 then 8 * np_round qh else 1)
     \<and> Ngrid ?g = Ntime ?g * Nspace ?g * Nspace2 ?g
     \<and> 8 dvd Ntime ?g \<and> 8 dvd Nspace ?g"
    by simp
  with run ex show ?thesis by blast
qed

lemma rnd64_examples:
  "rnd64 1 = Fin 1" "rnd64 2 = Fin 2" "rnd64 8 = Fin 8" "rnd64 (1 / 8) = Fin (1 / 8)"
  "rnd64 (25 / 2) = Fin (25 / 2)" "rnd64 64 = Fin 64" "rnd64 16 = Fin 16"
  "rnd64 100 = Fin 100"
  using rnd64_int [of 1] rnd64_int [of 2] rnd64_int [of 8] rnd64_dyadic [of 1 3]
    rnd64_dyadic [of 25 1] rnd64_int [of 64] rnd64_int [of 16] rnd64_int [of 100]
  by simp_all

theorem C2_grid_derivation_witness:
  "1 / 2 ^ 1074 \<le> (1::real)
   \<and> fl_div (Fin 100) (fl_mul (Fin 8) (Fin 1)) = Fin (25 / 2)
   \<and> fl_div (Fin 64) (fl_mul (Fin 8) (Fin 1)) = Fin 8
   \<and> fl_div (Fin 16) (fl_mul (Fin 8) (Fin 1)) = Fin 2
   \<and> np_round (25 / 2) = 12 \<and> np_round 8 = 8 \<and> np_round 2 = 2
   \<and> (\<exists>g. derive_grid (Fin 100) (Fin 1) (Fin 64) (Fin 16) (Fin 1) 2 = Inr g
         \<and> Ntime g = 96 \<and> Nfreq g = 49 \<and> Nspace g = 64 \<and> Nspace2 g = 16
         \<and> Ngrid g = 98304 \<and> 8 dvd Ntime g \<and> 8 dvd Nspace g)"
proof -
  have r: "np_round (25 / 2) = 12" "np_round 8 = 8" "np_round 2 = 2"
    by (simp_all add: np_round_def Let_def)
  have s: "1 / 2 ^ 1074 \<le> (1::real)" by simp
  have q: "fl_div (Fin 100) (fl_mul (Fin 8) (Fin 1)) = Fin (25 / 2)"
    "fl_div (Fin 64) (fl_mul (Fin 8) (Fin 1)) = Fin 8"
    "fl_div (Fin 16) (fl_mul (Fin 8) (Fin 1)) = Fin 2"
    by (simp_all add: rnd64_examples)
  have h: "(2::int) = 2 \<or> (2::int) = 4 \<longrightarrow>
      fl_div (Fin 16) (fl_mul (Fin 8) (Fin 1)) = Fin 2 \<and> \<bar>np_round 2\<bar> < 2 ^ 50"
    by (simp add: rnd64_examples r)
  have b: "np_round (25 / 2) \<noteq> 0" "\<bar>np_round (25 / 2)\<bar> < 2 ^ 50" "\<bar>np_round 8\<bar> < 2 ^ 50"
    by (simp_all add: r)
  from C2_grid_derivation [OF s s q(1) q(2) h b]
  obtain g where "derive_grid (Fin 100) (Fin 1) (Fin 64) (Fin 16) (Fin 1) 2 = Inr g"
    and "Ntime g = 8 * np_round (25 / 2)"
    and "Nfreq g = Ntime g div 2 + 1"
    and "Nspace g = 8 * np_round 8"
    and "Nspace2 g = (if (2::int) = 2 \<or> (2::int) = 4 then 8 * np_round 2 else 1)"
    and "Ngrid g = Ntime g * Nspace g * Nspace2 g"
    and "8 dvd Ntime g" and "8 dvd Nspace g"
    by blast
  then have "derive_grid (Fin 100) (Fin 1) (Fin 64) (Fin 16) (Fin 1) 2 = Inr g
         \<and> Ntime g = 96 \<and> Nfreq g = 49 \<and> Nspace g = 64 \<and> Nspace2 g = 16
         \<and> Ngrid g = 98304 \<and> 8 dvd Ntime g \<and> 8 dvd Nspace g"
    by (simp add: r)
  with s q r show ?thesis by blast
qed

text \<open>
  Rounding a real that is not a binary64 value: with \<open>2 ^ 52 \<le> \<bar>x\<bar> * 2 ^ j < 2 ^ 53\<close> the
  spacing around \<open>x\<close> is \<open>1 / 2 ^ j\<close>.
\<close>

lemma np_round_bound:
  assumes "\<bar>z\<bar> \<le> of_int b"
  shows "\<bar>np_round z\<bar> \<le> b"
proof -
  have "z \<le> of_int b" "of_int (- b) \<le> z" using assms by simp_all
  then have f: "\<lfloor>z\<rfloor> \<le> b" "- b \<le> \<lfloor>z\<rfloor>" by (simp_all add: floor_le_iff le_floor_iff)
  have "\<lfloor>z\<rfloor> + 1 \<le> b" if "of_int \<lfloor>z\<rfloor> < z"
  proof -
    from that \<open>z \<le> of_int b\<close> have "(of_int \<lfloor>z\<rfloor> :: real) < of_int b" by linarith
    then show ?thesis by simp
  qed
  then show ?thesis using f
    by (auto simp: np_round_def Let_def)
qed

lemma rnd64_scaled:
  assumes j: "j \<le> 1074" and lo: "2 ^ 52 \<le> \<bar>x * 2 ^ j\<bar>" and hi: "\<bar>x * 2 ^ j\<bar> < 2 ^ 53"
    and m: "np_round (x * 2 ^ j) = m"
  shows "rnd64 x = Fin (of_int m / 2 ^ j)"
proof -
  have ax: "\<bar>x * 2 ^ j\<bar> = \<bar>x\<bar> * 2 ^ j" by (simp add: abs_mult)
  have p1: "(2::real) powi (52 - int j) = 2 ^ 52 / 2 ^ j"
    and p2: "(2::real) powi (53 - int j) = 2 ^ 53 / 2 ^ j"
    by (simp_all add: power_int_diff)
  have l: "2 powi (52 - int j) \<le> \<bar>x\<bar>" using lo unfolding ax p1 by (simp add: field_simps)
  have h: "\<bar>x\<bar> < 2 powi (53 - int j)" using hi unfolding ax p2 by (simp add: field_simps)
  have pos: "0 < \<bar>x\<bar>"
  proof -
    have "(0::real) < 2 powi (52 - int j)" by simp
    with l show ?thesis by linarith
  qed
  have "\<lfloor>log 2 \<bar>x\<bar>\<rfloor> < 53 - int j" by (rule floor_log2_less [OF pos h])
  moreover have "52 - int j \<le> \<lfloor>log 2 \<bar>x\<bar>\<rfloor>" by (rule floor_log2_ge [OF l])
  ultimately have e: "\<lfloor>log 2 \<bar>x\<bar>\<rfloor> = 52 - int j" by simp
  have mx: "max (52 - int j) (- 1022) = 52 - int j" using j by simp
  have u: "(2::real) powi (52 - int j - 52) = 1 / 2 ^ j"
    by (simp add: power_int_minus field_simps)
  have q: "x / (1 / 2 ^ j) = x * 2 ^ j" by simp
  have "\<bar>np_round (x * 2 ^ j)\<bar> \<le> 2 ^ 53"
    using hi by (intro np_round_bound) simp
  then have "\<bar>of_int m :: real\<bar> \<le> of_int (2 ^ 53)" unfolding m
    by (simp only: of_int_abs [symmetric] of_int_le_iff)
  then have "\<bar>of_int m :: real\<bar> \<le> 2 ^ 53" by simp
  moreover have "\<bar>of_int m / 2 ^ j :: real\<bar> \<le> \<bar>of_int m\<bar>"
  proof -
    have "(1::real) \<le> 2 ^ j" by simp
    then have "\<bar>of_int m\<bar> / 2 ^ j \<le> \<bar>of_int m :: real\<bar> / 1"
      by (intro divide_left_mono) simp_all
    then show ?thesis by (simp add: abs_divide)
  qed
  moreover have "(2::real) ^ 53 < 2 ^ 1024" by (simp add: power_strict_increasing)
  ultimately have small: "\<not> 2 ^ 1024 \<le> \<bar>of_int m / 2 ^ j :: real\<bar>" by linarith
  have y: "of_int (np_round (x / (1 / 2 ^ j))) * (1 / 2 ^ j) = (of_int m / 2 ^ j :: real)"
    unfolding q m by simp
  show ?thesis
    unfolding rnd64_def Let_def e mx u y using small by simp
qed

text \<open>
  The decimals 230 and 2.3 have the ratio 100, but their binary64 quotient by line 116
  lies above 12.5 and rounds to 13.
\<close>

lemma py_float_2_3: "rnd64 (23 / 10) = Fin (5179139571476070 / 2 ^ 51)"
proof -
  have "np_round (23 / 10 * 2 ^ 51) = 5179139571476070"
    by (simp add: np_round_def Let_def)
  from rnd64_scaled [OF _ _ _ this] show ?thesis by simp
qed

lemma quotient_230_2_3:
  "fl_div (Fin 230) (fl_mul (Fin 8) (Fin (5179139571476070 / 2 ^ 51)))
     = Fin (7036874417766401 / 2 ^ 49)"
proof -
  have a: "fl_mul (Fin 8) (Fin (5179139571476070 / 2 ^ 51)) = Fin (5179139571476070 / 2 ^ 48)"
    using rnd64_dyadic [of 5179139571476070 48] by simp
  have "np_round (230 / (5179139571476070 / 2 ^ 48) * 2 ^ 49) = 7036874417766401"
    by (simp add: np_round_def Let_def)
  from rnd64_scaled [OF _ _ _ this] show ?thesis unfolding a by simp
qed


text \<open>
  The claim as stated fails: positive steps do not exclude \<open>Ntime = 0\<close>, where line 118
  divides by zero; and the quotient is the binary64 one, so a ratio of 100 between the
  decimals of the manifest need not give 96.
\<close>

theorem C2_zero_Ntime_raises:
  "(0::real) < 1
   \<and> derive_grid (Fin 1) (Fin 1) (Fin 64) (Fin 64) (Fin 1) 0 = Inl ZeroDivisionError
   \<and> (230::real) / (23 / 10) = 100
   \<and> derive_grid (rnd64 230) (rnd64 (23 / 10)) (rnd64 64) (rnd64 64) (rnd64 1) 0
       = Inr \<lparr>Ntime = 104, Nfreq = 53,
              fStep = fl_div (Fin 1) (fl_mul (Fin 104) (Fin (5179139571476070 / 2 ^ 51))),
              Nspace = 64, Nspace2 = 1, Ngrid = 6656\<rparr>"
proof -
  have z: "np_round (1 / 8) = 0" by (simp add: np_round_def Let_def)
  have A: "derive_grid (Fin 1) (Fin 1) (Fin 64) (Fin 64) (Fin 1) 0 = Inl ZeroDivisionError"
    by (simp add: derive_grid_def MIN_GRIDDIM_def py_truediv_def int_truediv_def
          int_to_float_def rnd64_examples then_do_Inr_simp then_do_Inl z)
  have r: "np_round (7036874417766401 / 562949953421312) = 13" "np_round 8 = 8"
    by (simp_all add: np_round_def Let_def)
  have i: "rnd64 230 = Fin 230" using rnd64_int [of 230] by simp
  have s: "1 / 2 ^ 1074 \<le> (5179139571476070 / 2 ^ 51 :: real)" "1 / 2 ^ 1074 \<le> (1::real)"
    by simp_all
  have q: "fl_div (Fin 64) (fl_mul (Fin 8) (Fin 1)) = Fin 8"
    by (simp add: rnd64_examples)
  have B: "derive_grid (Fin 230) (Fin (5179139571476070 / 2 ^ 51)) (Fin 64) (Fin 64) (Fin 1) 0
       = Inr \<lparr>Ntime = 104, Nfreq = 53,
              fStep = fl_div (Fin 1) (fl_mul (Fin 104) (Fin (5179139571476070 / 2 ^ 51))),
              Nspace = 64, Nspace2 = 1, Ngrid = 6656\<rparr>"
    using derive_grid_ok [OF s quotient_230_2_3 q, of 0 64 0] by (simp add: r)
  have "(230::real) / (23 / 10) = 100" by simp
  with A B show ?thesis by (simp add: i py_float_2_3 rnd64_examples)
qed

subsection \<open>Binary blobs and arrays (lines 126--151)\<close>

text \<open>
  A double is modelled by its 64-bit pattern, read from eight bytes in little-endian
  order (the source notes that it assumes the byte order of the machine that wrote the
  file). None of the code under study computes with the decoded values, so the bit
  pattern is all that matters.

  An array is its shape and its elements in column-major order (first index fastest),
  the order \<^verbatim>\<open>order=F\<close> of the source. \<open>nd_get a idx\<close> is \<^verbatim>\<open>a[i0, i1, ...]\<close>.
\<close>

type_synonym byte = "8 word"
type_synonym double = "64 word"

definition double_of_bytes :: "byte list \<Rightarrow> double" where
  "double_of_bytes bs = word_rcat (rev bs)"

definition doubles_of_bytes :: "byte list \<Rightarrow> double list" where
  "doubles_of_bytes bs =
     map (\<lambda>i. double_of_bytes (take 8 (drop (8 * i) bs))) [0..<length bs div 8]"

definition np_fromfile :: "byte list \<Rightarrow> double list" where
  "np_fromfile bs = doubles_of_bytes bs"

definition np_frombuffer :: "byte list \<Rightarrow> py_error + double list" where
  "np_frombuffer bs =
     (if length bs mod 8 = 0 then Inr (doubles_of_bytes bs) else Inl ValueError)"

record 'a ndarray =
  shape :: "nat list"
  elems :: "'a list"

fun offsetF :: "nat list \<Rightarrow> nat list \<Rightarrow> nat" where
  "offsetF (n # ns) (i # js) = i + n * offsetF ns js"
| "offsetF _ _ = 0"

fun in_bounds :: "nat list \<Rightarrow> nat list \<Rightarrow> bool" where
  "in_bounds [] [] = True"
| "in_bounds (n # ns) (i # js) = (i < n \<and> in_bounds ns js)"
| "in_bounds _ _ = False"

definition nd_get :: "'a ndarray \<Rightarrow> nat list \<Rightarrow> 'a option" where
  "nd_get a idx =
     (if in_bounds (shape a) idx then Some (elems a ! offsetF (shape a) idx) else None)"

fun indicesF :: "nat list \<Rightarrow> nat list list" where
  "indicesF [] = [[]]"
| "indicesF (n # ns) = concat (map (\<lambda>js. map (\<lambda>i. i # js) [0..<n]) (indicesF ns))"

definition tabulate :: "nat list \<Rightarrow> (nat list \<Rightarrow> 'a) \<Rightarrow> 'a ndarray" where
  "tabulate sh f = \<lparr>shape = sh, elems = map f (indicesF sh)\<rparr>"

lemma length_indicesF: "length (indicesF sh) = prod_list sh"
  by (induction sh) (simp_all add: length_concat o_def sum_list_triv)

lemma concat_blocks_nth:
  assumes "\<forall>x \<in> set xs. length (f x) = n" and "j < length xs" and "i < n"
  shows "concat (map f xs) ! (i + n * j) = f (xs ! j) ! i"
  using assms
proof (induction xs arbitrary: j)
  case Nil
  then show ?case by simp
next
  case (Cons x xs)
  show ?case
  proof (cases j)
    case 0
    with Cons.prems show ?thesis by (simp add: nth_append)
  next
    case (Suc k)
    with Cons.prems have "concat (map f xs) ! (i + n * k) = f (xs ! k) ! i"
      by (intro Cons.IH) auto
    moreover have "i + n * Suc k = n + (i + n * k)" by simp
    ultimately show ?thesis using Cons.prems Suc
      by (simp add: nth_append)
  qed
qed

lemma offsetF_less: "in_bounds sh idx \<Longrightarrow> offsetF sh idx < prod_list sh"
proof (induction sh idx rule: in_bounds.induct)
  case (2 n ns i js)
  then have "i < n" and "offsetF ns js < prod_list ns" by simp_all
  then have "i + n * offsetF ns js < n + n * offsetF ns js" by simp
  also have "\<dots> = n * Suc (offsetF ns js)" by simp
  also have "\<dots> \<le> n * prod_list ns"
    using \<open>offsetF ns js < prod_list ns\<close> by (intro mult_le_mono2) simp
  finally show ?case by simp
qed simp_all

lemma indicesF_nth: "in_bounds sh idx \<Longrightarrow> indicesF sh ! offsetF sh idx = idx"
proof (induction sh idx rule: in_bounds.induct)
  case (2 n ns i js)
  then have i: "i < n" and b: "in_bounds ns js" by simp_all
  have "concat (map (\<lambda>js. map (\<lambda>i. i # js) [0..<n]) (indicesF ns)) ! (i + n * offsetF ns js)
      = (map (\<lambda>i. i # (indicesF ns ! offsetF ns js)) [0..<n]) ! i"
    using i offsetF_less [OF b]
    by (intro concat_blocks_nth) (simp_all add: length_indicesF)
  then show ?case using i 2 by simp
qed simp_all

lemma nd_get_tabulate: "in_bounds sh idx \<Longrightarrow> nd_get (tabulate sh f) idx = Some (f idx)"
  using offsetF_less [of sh idx]
  by (simp add: nd_get_def tabulate_def length_indicesF indicesF_nth)


definition py_slice_to :: "'a list \<Rightarrow> int \<Rightarrow> 'a list" where
  "py_slice_to xs stop =
     (if 0 \<le> stop then take (nat stop) xs else take (length xs - nat (- stop)) xs)"

text \<open>
  \<^verbatim>\<open>np.reshape\<close> takes a negative extent as the one unknown extent and infers it from
  the size of the data: the product of the other extents must be positive and divide the
  size. Two negative extents are refused, and without a negative extent the product of
  the extents must be the size.
\<close>

definition np_reshapeF :: "'a list \<Rightarrow> int list \<Rightarrow> py_error + 'a ndarray" where
  "np_reshapeF xs dims =
     (let unknown = filter (\<lambda>d. d < 0) dims;
          known = prod_list (filter (\<lambda>d. 0 \<le> d) dims)
      in if unknown = []
         then (if int (length xs) = known
               then Inr \<lparr>shape = map nat dims, elems = xs\<rparr>
               else Inl ValueError)
         else if length unknown = 1
         then (if known = 0 \<or> int (length xs) mod known \<noteq> 0 then Inl ValueError
               else Inr \<lparr>shape = map (\<lambda>d. if d < 0 then length xs div nat known else nat d) dims,
                         elems = xs\<rparr>)
         else Inl ValueError)"

text \<open>
  A slice \<^verbatim>\<open>start:stop:step\<close> of an axis of length \<open>L\<close>, for a start that is not
  negative and a positive step: a negative stop counts from the end.
\<close>

definition py_stop :: "nat \<Rightarrow> int \<Rightarrow> nat" where
  "py_stop L stop = (if 0 \<le> stop then min (nat stop) L else nat (int L + stop))"

definition slice_count :: "nat \<Rightarrow> nat \<Rightarrow> int \<Rightarrow> nat \<Rightarrow> nat" where
  "slice_count L start stop step = (py_stop L stop - start + (step - 1)) div step"

definition slice_axis :: "nat \<Rightarrow> nat \<Rightarrow> int \<Rightarrow> nat \<Rightarrow> 'a ndarray \<Rightarrow> 'a ndarray" where
  "slice_axis k start stop step a =
     tabulate ((shape a)[k := slice_count (shape a ! k) start stop step])
       (\<lambda>idx. elems a ! offsetF (shape a) (idx[k := start + step * (idx ! k)]))"

definition select_axis :: "nat \<Rightarrow> nat \<Rightarrow> 'a ndarray \<Rightarrow> 'a ndarray" where
  "select_axis k c a =
     tabulate (take k (shape a) @ drop (Suc k) (shape a))
       (\<lambda>idx. elems a ! offsetF (shape a) (take k idx @ c # drop k idx))"

definition np_squeeze :: "'a ndarray \<Rightarrow> 'a ndarray" where
  "np_squeeze a = \<lparr>shape = filter (\<lambda>n. n \<noteq> 1) (shape a), elems = elems a\<rparr>"

definition np_T :: "'a ndarray \<Rightarrow> 'a ndarray" where
  "np_T a = tabulate (rev (shape a)) (\<lambda>idx. elems a ! offsetF (shape a) (rev idx))"

definition read_doubles :: "bool \<Rightarrow> byte list \<Rightarrow> py_error + double list" where
  "read_doubles isZip bs = (if isZip then np_frombuffer bs else Inr (np_fromfile bs))"

definition decode_field ::
  "bool \<Rightarrow> int \<Rightarrow> grid \<Rightarrow> int \<Rightarrow> int \<Rightarrow> byte list
     \<Rightarrow> py_error + (double ndarray \<times> double ndarray)" where
  "decode_field isZip symmetryType g nsims nsims2 bs =
     (case read_doubles isZip bs of
        Inl e \<Rightarrow> Inl e
      | Inr ds \<Rightarrow>
         (let cut = py_slice_to ds (2 * Ngrid g * nsims * nsims2)
          in if symmetryType = 2 \<or> symmetryType = 4
             then (case np_reshapeF cut [Ntime g, Nspace g, Nspace2 g, 2 * nsims, nsims2] of
                     Inl e \<Rightarrow> Inl e
                   | Inr Ext \<Rightarrow>
                       Inr (np_squeeze (slice_axis 3 0 (2 * nsims) 2 Ext),
                            np_squeeze (slice_axis 3 1 (2 * nsims + 1) 2 Ext)))
             else (case np_reshapeF cut [Ntime g, Nspace g, 2 * nsims, nsims2] of
                     Inl e \<Rightarrow> Inl e
                   | Inr Ext \<Rightarrow>
                       Inr (np_squeeze (slice_axis 2 0 (2 * nsims) 2 Ext),
                            np_squeeze (slice_axis 2 1 (2 * nsims + 1) 2 Ext)))))"

record spectra =
  spectrumTotal :: "double ndarray"
  spectrum_x :: "double ndarray"
  spectrum_y :: "double ndarray"

definition decode_spectrum ::
  "bool \<Rightarrow> grid \<Rightarrow> int \<Rightarrow> int \<Rightarrow> byte list \<Rightarrow> py_error + spectra" where
  "decode_spectrum isZip g nsims nsims2 bs =
     (case read_doubles isZip bs of
        Inl e \<Rightarrow> Inl e
      | Inr ds \<Rightarrow>
         (case np_reshapeF (py_slice_to ds (3 * Nfreq g * nsims * nsims2))
                 [Nfreq g, 3, nsims, nsims2] of
            Inl e \<Rightarrow> Inl e
          | Inr RawSpectrum \<Rightarrow>
              Inr \<lparr>spectrumTotal = np_T (np_squeeze (select_axis 1 2 RawSpectrum)),
                   spectrum_x = np_T (np_squeeze (select_axis 1 0 RawSpectrum)),
                   spectrum_y = np_T (np_squeeze (select_axis 1 1 RawSpectrum))\<rparr>))"

fun squeeze_index :: "nat list \<Rightarrow> nat list \<Rightarrow> nat list" where
  "squeeze_index (n # ns) (i # js) =
     (if n = 1 then squeeze_index ns js else i # squeeze_index ns js)"
| "squeeze_index _ _ = []"

lemma squeeze_index_ok:
  "in_bounds sh idx \<Longrightarrow>
     in_bounds (filter (\<lambda>n. n \<noteq> 1) sh) (squeeze_index sh idx)
     \<and> offsetF (filter (\<lambda>n. n \<noteq> 1) sh) (squeeze_index sh idx) = offsetF sh idx"
  by (induction sh idx rule: in_bounds.induct) auto



lemma in_bounds_nth: "in_bounds sh idx \<Longrightarrow> k < length sh \<Longrightarrow> idx ! k < sh ! k"
proof (induction sh idx arbitrary: k rule: in_bounds.induct)
  case (2 n ns i js)
  then show ?case by (cases k) auto
qed simp_all

lemma in_bounds_iff: "in_bounds sh idx \<longleftrightarrow> list_all2 (\<lambda>n i. i < n) sh idx"
  by (induction sh idx rule: in_bounds.induct) auto

lemma in_bounds_rev: "in_bounds sh idx \<Longrightarrow> in_bounds (rev sh) (rev idx)"
  by (simp add: in_bounds_iff)



lemma squeeze_index_append:
  "in_bounds sh idx \<Longrightarrow>
     squeeze_index (sh @ sh2) (idx @ idx2) = squeeze_index sh idx @ squeeze_index sh2 idx2"
  by (induction sh idx rule: in_bounds.induct) auto

lemma squeeze_index_id:
  "in_bounds sh idx \<Longrightarrow> 1 \<notin> set sh \<Longrightarrow> squeeze_index sh idx = idx"
  by (induction sh idx rule: in_bounds.induct) auto


lemma nd_get_select_axis:
  assumes "in_bounds (take k (shape a) @ drop (Suc k) (shape a)) idx"
  shows "nd_get (select_axis k c a) idx
     = Some (elems a ! offsetF (shape a) (take k idx @ c # drop k idx))"
  using assms by (simp add: select_axis_def nd_get_tabulate)

lemma nd_get_T:
  assumes "in_bounds (shape a) idx"
  shows "nd_get (np_T a) (rev idx) = Some (elems a ! offsetF (shape a) idx)"
  using in_bounds_rev [OF assms] by (simp add: np_T_def nd_get_tabulate)

lemma np_reshapeF_known:
  assumes "\<forall>d \<in> set dims. 0 \<le> d"
  shows "np_reshapeF xs dims =
     (if int (length xs) = prod_list dims
      then Inr \<lparr>shape = map nat dims, elems = xs\<rparr> else Inl ValueError)"
proof -
  have "filter (\<lambda>d. d < 0) dims = []" using assms by (auto simp: filter_empty_conv)
  moreover have "filter (\<lambda>d. 0 \<le> d) dims = dims" using assms by (intro filter_True) simp
  ultimately show ?thesis by (simp add: np_reshapeF_def)
qed

lemma np_reshapeF_Inr:
  assumes "\<forall>d \<in> set dims. 0 \<le> d"
  shows "np_reshapeF xs dims = Inr a \<longleftrightarrow>
     int (length xs) = prod_list dims \<and> a = \<lparr>shape = map nat dims, elems = xs\<rparr>"
  unfolding np_reshapeF_known [OF assms] by auto

lemma np_reshapeF_Inl: "np_reshapeF xs dims = Inl e \<Longrightarrow> e = ValueError"
  by (auto simp: np_reshapeF_def Let_def split: if_splits)

lemma length_doubles_of_bytes [simp]: "length (doubles_of_bytes bs) = length bs div 8"
  by (simp add: doubles_of_bytes_def)

lemma read_doubles_whole:
  "length bs mod 8 = 0 \<Longrightarrow> read_doubles isZip bs = Inr (doubles_of_bytes bs)"
  by (simp add: read_doubles_def np_frombuffer_def np_fromfile_def)

lemma read_doubles_Inr:
  "read_doubles isZip bs = Inr ds \<Longrightarrow> ds = doubles_of_bytes bs"
  by (auto simp: read_doubles_def np_frombuffer_def np_fromfile_def split: if_splits)


lemma py_slice_to_nth:
  "i < length (py_slice_to xs stop) \<Longrightarrow> py_slice_to xs stop ! i = xs ! i"
  by (auto simp: py_slice_to_def)





lemma shape_slice_axis [simp]:
  "shape (slice_axis k start stop step a)
     = (shape a)[k := slice_count (shape a ! k) start stop step]"
  by (simp add: slice_axis_def tabulate_def)

lemma shape_np_squeeze [simp]: "shape (np_squeeze a) = filter (\<lambda>n. n \<noteq> 1) (shape a)"
  by (simp add: np_squeeze_def)






lemma doubles_of_bytes_take:
  assumes "8 * c \<le> length bs"
  shows "doubles_of_bytes (take (8 * c) bs) = take c (doubles_of_bytes bs)"
proof -
  have c: "c \<le> length bs div 8" using assms by auto
  have len: "length (take (8 * c) bs) div 8 = c" using assms by simp
  have "map (\<lambda>i. double_of_bytes (take 8 (drop (8 * i) (take (8 * c) bs)))) [0..<c]
      = map (\<lambda>i. double_of_bytes (take 8 (drop (8 * i) bs))) [0..<c]"
  proof (rule map_cong [OF refl])
    fix i assume "i \<in> set [0..<c]"
    then have "8 * i + 8 \<le> 8 * c" by auto
    then have "min 8 (8 * c - 8 * i) = 8" by auto
    then show "double_of_bytes (take 8 (drop (8 * i) (take (8 * c) bs)))
        = double_of_bytes (take 8 (drop (8 * i) bs))"
      by (simp add: drop_take)
  qed
  moreover have "take c (doubles_of_bytes bs)
      = map (\<lambda>i. double_of_bytes (take 8 (drop (8 * i) bs))) [0..<c]"
    using c by (simp add: doubles_of_bytes_def take_map min_def)
  ultimately show ?thesis
    unfolding doubles_of_bytes_def len by simp
qed

lemma read_doubles_ok:
  "isZip \<longrightarrow> length bs mod 8 = 0 \<Longrightarrow> read_doubles isZip bs = Inr (doubles_of_bytes bs)"
  by (simp add: read_doubles_def np_frombuffer_def np_fromfile_def)

lemma reshape_enough:
  assumes "\<forall>d \<in> set dims. 0 \<le> d" and "prod_list dims = cnt" and "cnt \<le> int (length ds)"
  shows "np_reshapeF (py_slice_to ds cnt) dims
     = Inr \<lparr>shape = map nat dims, elems = take (nat cnt) ds\<rparr>"
proof -
  have "0 \<le> cnt" using assms(1,2) by (auto intro: prod_list_nonneg)
  then have "int (length (take (nat cnt) ds)) = cnt" using assms(3) by (auto simp: min_def)
  with \<open>0 \<le> cnt\<close> show ?thesis
    using assms(2) by (simp add: np_reshapeF_known [OF assms(1)] py_slice_to_def)
qed

lemma reshape_short:
  assumes "\<forall>d \<in> set dims. 0 \<le> d" and "prod_list dims = cnt" and "int (length ds) < cnt"
  shows "np_reshapeF (py_slice_to ds cnt) dims = Inl ValueError"
  using assms(2,3) by (auto simp: np_reshapeF_known [OF assms(1)] py_slice_to_def)


lemma reshape_take:
  assumes "\<forall>d \<in> set dims. 0 \<le> d" and "prod_list dims = cnt" and "cnt \<le> int (length ds)"
  shows "np_reshapeF (py_slice_to (take (nat cnt) ds) cnt) dims
     = np_reshapeF (py_slice_to ds cnt) dims"
proof -
  have "cnt \<le> int (length (take (nat cnt) ds))" using assms(3) by auto
  from reshape_enough [OF assms(1,2) this] reshape_enough [OF assms]
  show ?thesis by simp
qed

lemma read_doubles_take:
  assumes "isZip \<longrightarrow> length bs mod 8 = 0" and "int c \<le> int (length bs div 8)"
  shows "read_doubles isZip (take (8 * c) bs) = Inr (take c (doubles_of_bytes bs))"
proof -
  have le: "8 * c \<le> length bs" using assms(2) by auto
  then have "length (take (8 * c) bs) mod 8 = 0" by (simp add: min_def)
  then have "read_doubles isZip (take (8 * c) bs) = Inr (doubles_of_bytes (take (8 * c) bs))"
    by (intro read_doubles_ok) simp
  then show ?thesis by (simp add: doubles_of_bytes_take [OF le])
qed

lemma field_dims_prod:
  assumes "Ngrid g = Ntime g * Nspace g * Nspace2 g"
    and "\<not> (symt = 2 \<or> symt = 4) \<longrightarrow> Nspace2 g = 1"
  shows "prod_list (if symt = 2 \<or> symt = 4
                    then [Ntime g, Nspace g, Nspace2 g, 2 * n1, n2]
                    else [Ntime g, Nspace g, 2 * n1, n2]) = 2 * Ngrid g * n1 * n2"
  using assms by auto

lemma decode_field_enough:
  assumes z: "isZip \<longrightarrow> length bs mod 8 = 0"
    and nn: "0 \<le> Ntime g" "0 \<le> Nspace g" "0 \<le> Nspace2 g" "0 \<le> n1" "0 \<le> n2"
    and G: "Ngrid g = Ntime g * Nspace g * Nspace2 g"
    and P: "\<not> (symt = 2 \<or> symt = 4) \<longrightarrow> Nspace2 g = 1"
    and enough: "2 * Ngrid g * n1 * n2 \<le> int (length bs div 8)"
  shows "\<exists>ex ey. decode_field isZip symt g n1 n2 bs = Inr (ex, ey)"
    and "decode_field isZip symt g n1 n2 (take (8 * nat (2 * Ngrid g * n1 * n2)) bs)
       = decode_field isZip symt g n1 n2 bs"
proof -
  let ?cnt = "2 * Ngrid g * n1 * n2"
  let ?ds = "doubles_of_bytes bs"
  let ?dims = "if symt = 2 \<or> symt = 4
                    then [Ntime g, Nspace g, Nspace2 g, 2 * n1, n2]
                    else [Ntime g, Nspace g, 2 * n1, n2]"
  have d: "\<forall>d \<in> set ?dims. 0 \<le> d" using nn by auto
  have p: "prod_list ?dims = ?cnt" by (rule field_dims_prod [OF G P])
  have e: "?cnt \<le> int (length ?ds)" using enough by simp
  have c0: "0 \<le> ?cnt" using nn G by simp
  have r: "read_doubles isZip bs = Inr ?ds" by (rule read_doubles_ok [OF z])
  have rt: "read_doubles isZip (take (8 * nat ?cnt) bs) = Inr (take (nat ?cnt) ?ds)"
    using c0 enough by (intro read_doubles_take [OF z]) simp
  note A = reshape_enough [OF d p e]
  note B = reshape_take [OF d p e]
  show "\<exists>ex ey. decode_field isZip symt g n1 n2 bs = Inr (ex, ey)"
  proof (cases "symt = 2 \<or> symt = 4")
    case True
    with A show ?thesis by (simp add: decode_field_def r Let_def)
  next
    case False
    with A show ?thesis by (simp add: decode_field_def r Let_def)
  qed
  show "decode_field isZip symt g n1 n2 (take (8 * nat ?cnt) bs)
       = decode_field isZip symt g n1 n2 bs"
  proof (cases "symt = 2 \<or> symt = 4")
    case True
    with B show ?thesis by (simp add: decode_field_def r rt Let_def)
  next
    case False
    with B show ?thesis by (simp add: decode_field_def r rt Let_def)
  qed
qed

lemma decode_field_short:
  assumes nn: "0 \<le> Ntime g" "0 \<le> Nspace g" "0 \<le> Nspace2 g" "0 \<le> n1" "0 \<le> n2"
    and G: "Ngrid g = Ntime g * Nspace g * Nspace2 g"
    and P: "\<not> (symt = 2 \<or> symt = 4) \<longrightarrow> Nspace2 g = 1"
    and short: "int (length bs div 8) < 2 * Ngrid g * n1 * n2"
  shows "decode_field isZip symt g n1 n2 bs = Inl ValueError"
proof -
  let ?cnt = "2 * Ngrid g * n1 * n2"
  let ?dims = "if symt = 2 \<or> symt = 4
                    then [Ntime g, Nspace g, Nspace2 g, 2 * n1, n2]
                    else [Ntime g, Nspace g, 2 * n1, n2]"
  have d: "\<forall>d \<in> set ?dims. 0 \<le> d" using nn by auto
  have p: "prod_list ?dims = ?cnt" by (rule field_dims_prod [OF G P])
  have s: "int (length (doubles_of_bytes bs)) < ?cnt" using short by simp
  note A = reshape_short [OF d p s]
  show ?thesis
  proof (cases "read_doubles isZip bs")
    case (Inl e)
    then have "e = ValueError"
      by (auto simp: read_doubles_def np_frombuffer_def split: if_splits)
    with Inl show ?thesis by (simp add: decode_field_def)
  next
    case (Inr ds)
    then have "ds = doubles_of_bytes bs" by (rule read_doubles_Inr)
    with Inr A show ?thesis
      by (cases "symt = 2 \<or> symt = 4") (simp_all add: decode_field_def Let_def)
  qed
qed


lemma decode_spectrum_enough:
  assumes z: "isZip \<longrightarrow> length bs mod 8 = 0"
    and nn: "0 \<le> Nfreq g" "0 \<le> n1" "0 \<le> n2"
    and enough: "3 * Nfreq g * n1 * n2 \<le> int (length bs div 8)"
  shows "\<exists>sp. decode_spectrum isZip g n1 n2 bs = Inr sp"
    and "decode_spectrum isZip g n1 n2 (take (8 * nat (3 * Nfreq g * n1 * n2)) bs)
       = decode_spectrum isZip g n1 n2 bs"
proof -
  let ?cnt = "3 * Nfreq g * n1 * n2"
  let ?ds = "doubles_of_bytes bs"
  let ?dims = "[Nfreq g, 3, n1, n2]"
  have d: "\<forall>d \<in> set ?dims. 0 \<le> d" using nn by auto
  have p: "prod_list ?dims = ?cnt" by simp
  have e: "?cnt \<le> int (length ?ds)" using enough by simp
  have c0: "0 \<le> ?cnt" using nn by simp
  have r: "read_doubles isZip bs = Inr ?ds" by (rule read_doubles_ok [OF z])
  have rt: "read_doubles isZip (take (8 * nat ?cnt) bs) = Inr (take (nat ?cnt) ?ds)"
    using c0 enough by (intro read_doubles_take [OF z]) simp
  from reshape_enough [OF d p e]
  show "\<exists>sp. decode_spectrum isZip g n1 n2 bs = Inr sp"
    by (simp add: decode_spectrum_def r)
  from reshape_take [OF d p e]
  show "decode_spectrum isZip g n1 n2 (take (8 * nat ?cnt) bs)
       = decode_spectrum isZip g n1 n2 bs"
    by (simp add: decode_spectrum_def r rt)
qed

lemma decode_spectrum_short:
  assumes nn: "0 \<le> Nfreq g" "0 \<le> n1" "0 \<le> n2"
    and short: "int (length bs div 8) < 3 * Nfreq g * n1 * n2"
  shows "decode_spectrum isZip g n1 n2 bs = Inl ValueError"
proof -
  let ?cnt = "3 * Nfreq g * n1 * n2"
  let ?dims = "[Nfreq g, 3, n1, n2]"
  have d: "\<forall>d \<in> set ?dims. 0 \<le> d" using nn by auto
  have p: "prod_list ?dims = ?cnt" by simp
  have s: "int (length (doubles_of_bytes bs)) < ?cnt" using short by simp
  note A = reshape_short [OF d p s]
  show ?thesis
  proof (cases "read_doubles isZip bs")
    case (Inl e)
    then have "e = ValueError"
      by (auto simp: read_doubles_def np_frombuffer_def split: if_splits)
    with Inl show ?thesis by (simp add: decode_spectrum_def)
  next
    case (Inr ds)
    then have "ds = doubles_of_bytes bs" by (rule read_doubles_Inr)
    with Inr A show ?thesis by (simp add: decode_spectrum_def)
  qed
qed

lemma decode_spectrum_InrD:
  assumes ok: "decode_spectrum isZip g n1 n2 bs = Inr sp"
    and nn: "0 \<le> Nfreq g" "0 \<le> n1" "0 \<le> n2"
  defines "buf \<equiv> py_slice_to (doubles_of_bytes bs) (3 * Nfreq g * n1 * n2)"
    and "Raw \<equiv> \<lparr>shape = [nat (Nfreq g), 3, nat n1, nat n2],
                 elems = py_slice_to (doubles_of_bytes bs) (3 * Nfreq g * n1 * n2)\<rparr>"
  shows "0 \<le> Nfreq g" and "0 \<le> n1" and "0 \<le> n2"
    and "length buf = nat (Nfreq g) * (3 * (nat n1 * nat n2))"
    and "spectrumTotal sp = np_T (np_squeeze (select_axis 1 2 Raw))"
    and "spectrum_x sp = np_T (np_squeeze (select_axis 1 0 Raw))"
    and "spectrum_y sp = np_T (np_squeeze (select_axis 1 1 Raw))"
    and "isZip \<longrightarrow> length bs mod 8 = 0"
proof -
  from ok obtain ds where rd: "read_doubles isZip bs = Inr ds"
    by (auto simp: decode_spectrum_def split: sum.splits)
  then have ds: "ds = doubles_of_bytes bs" by (rule read_doubles_Inr)
  from rd show "isZip \<longrightarrow> length bs mod 8 = 0"
    by (auto simp: read_doubles_def np_frombuffer_def split: if_splits)
  from ok rd ds obtain R where
    re: "np_reshapeF buf [Nfreq g, 3, n1, n2] = Inr R"
    and sp: "sp = \<lparr>spectrumTotal = np_T (np_squeeze (select_axis 1 2 R)),
                   spectrum_x = np_T (np_squeeze (select_axis 1 0 R)),
                   spectrum_y = np_T (np_squeeze (select_axis 1 1 R))\<rparr>"
    by (auto simp: decode_spectrum_def buf_def split: sum.splits)
  have "\<forall>d \<in> set [Nfreq g, 3, n1, n2]. 0 \<le> d" using nn by simp
  from re [unfolded np_reshapeF_Inr [OF this]]
  have len: "int (length buf) = Nfreq g * (3 * (n1 * n2))"
    and R: "R = \<lparr>shape = [nat (Nfreq g), nat 3, nat n1, nat n2], elems = buf\<rparr>"
    by simp_all
  from nn show "0 \<le> Nfreq g" "0 \<le> n1" "0 \<le> n2" by simp_all
  have "int (length buf) = int (nat (Nfreq g) * (3 * (nat n1 * nat n2)))"
    using nn len by simp
  then show "length buf = nat (Nfreq g) * (3 * (nat n1 * nat n2))"
    by (simp del: of_nat_mult)
  have "R = Raw" by (simp add: R Raw_def buf_def)
  with sp show "spectrumTotal sp = np_T (np_squeeze (select_axis 1 2 Raw))"
    "spectrum_x sp = np_T (np_squeeze (select_axis 1 0 Raw))"
    "spectrum_y sp = np_T (np_squeeze (select_axis 1 1 Raw))"
    by simp_all
qed

lemma shape_select_axis [simp]:
  "shape (select_axis k c a) = take k (shape a) @ drop (Suc k) (shape a)"
  by (simp add: select_axis_def tabulate_def)

lemma shape_np_T [simp]: "shape (np_T a) = rev (shape a)"
  by (simp add: np_T_def tabulate_def)

lemma channel_element:
  assumes f: "f < F" and k: "k < N1" and b: "b < N2" and c: "c < 3"
    and len: "length buf = F * (3 * (N1 * N2))"
  shows "nd_get (np_T (np_squeeze (select_axis 1 c \<lparr>shape = [F, 3, N1, N2], elems = buf\<rparr>)))
           (rev (squeeze_index [F, N1, N2] [f, k, b]))
         = Some (buf ! (f + F * (c + 3 * (k + N1 * b))))"
    and "f + F * (c + 3 * (k + N1 * b)) < length buf"
proof -
  let ?Raw = "\<lparr>shape = [F, 3, N1, N2], elems = buf\<rparr>"
  let ?S = "select_axis 1 c ?Raw"
  have sh: "shape ?S = [F, N1, N2]" by simp
  have ib: "in_bounds [F, N1, N2] [f, k, b]" using f k b by simp
  have ib4: "in_bounds [F, 3, N1, N2] [f, c, k, b]" using f k b c by simp
  have q: "in_bounds (shape (np_squeeze ?S)) (squeeze_index [F, N1, N2] [f, k, b])"
    and o: "offsetF (shape (np_squeeze ?S)) (squeeze_index [F, N1, N2] [f, k, b])
        = offsetF [F, N1, N2] [f, k, b]"
    using squeeze_index_ok [OF ib] by (simp_all only: shape_np_squeeze sh)
  have "nd_get ?S [f, k, b] = Some (elems ?Raw ! offsetF (shape ?Raw) (take 1 [f, k, b] @ c # drop 1 [f, k, b]))"
    by (rule nd_get_select_axis) (use ib in simp)
  then have e: "elems ?S ! offsetF [F, N1, N2] [f, k, b] = buf ! (f + F * (c + 3 * (k + N1 * b)))"
    using ib by (simp add: nd_get_def)
  have "nd_get (np_T (np_squeeze ?S)) (rev (squeeze_index [F, N1, N2] [f, k, b]))
      = Some (elems (np_squeeze ?S) ! offsetF (shape (np_squeeze ?S)) (squeeze_index [F, N1, N2] [f, k, b]))"
    by (rule nd_get_T [OF q])
  also have "\<dots> = Some (elems ?S ! offsetF [F, N1, N2] [f, k, b])"
    by (simp only: o) (simp add: np_squeeze_def)
  finally show "nd_get (np_T (np_squeeze ?S)) (rev (squeeze_index [F, N1, N2] [f, k, b]))
         = Some (buf ! (f + F * (c + 3 * (k + N1 * b))))"
    by (simp only: e)
  from offsetF_less [OF ib4] show "f + F * (c + 3 * (k + N1 * b)) < length buf"
    by (simp add: len)
qed

lemma decode_spectrum_element:
  assumes ok: "decode_spectrum isZip g n1 n2 bs = Inr sp"
    and nn: "0 \<le> Nfreq g" "0 \<le> n1" "0 \<le> n2"
    and f: "f < nat (Nfreq g)" and k: "k < nat n1" and b: "b < nat n2"
  shows "nd_get (spectrum_x sp) (rev (squeeze_index [nat (Nfreq g), nat n1, nat n2] [f, k, b]))
       = Some (doubles_of_bytes bs ! (f + nat (Nfreq g) * (0 + 3 * (k + nat n1 * b))))"
    and "nd_get (spectrum_y sp) (rev (squeeze_index [nat (Nfreq g), nat n1, nat n2] [f, k, b]))
       = Some (doubles_of_bytes bs ! (f + nat (Nfreq g) * (1 + 3 * (k + nat n1 * b))))"
    and "nd_get (spectrumTotal sp) (rev (squeeze_index [nat (Nfreq g), nat n1, nat n2] [f, k, b]))
       = Some (doubles_of_bytes bs ! (f + nat (Nfreq g) * (2 + 3 * (k + nat n1 * b))))"
proof -
  note D = decode_spectrum_InrD [OF ok nn]
  let ?buf = "py_slice_to (doubles_of_bytes bs) (3 * Nfreq g * n1 * n2)"
  have el: "nd_get (np_T (np_squeeze (select_axis 1 c
              \<lparr>shape = [nat (Nfreq g), 3, nat n1, nat n2], elems = ?buf\<rparr>)))
           (rev (squeeze_index [nat (Nfreq g), nat n1, nat n2] [f, k, b]))
         = Some (doubles_of_bytes bs ! (f + nat (Nfreq g) * (c + 3 * (k + nat n1 * b))))"
    if c: "c < 3" for c
    using channel_element [OF f k b c D(4)] by (simp add: py_slice_to_nth)
  show "nd_get (spectrum_x sp) (rev (squeeze_index [nat (Nfreq g), nat n1, nat n2] [f, k, b]))
       = Some (doubles_of_bytes bs ! (f + nat (Nfreq g) * (0 + 3 * (k + nat n1 * b))))"
    unfolding D(6) by (rule el) simp
  show "nd_get (spectrum_y sp) (rev (squeeze_index [nat (Nfreq g), nat n1, nat n2] [f, k, b]))
       = Some (doubles_of_bytes bs ! (f + nat (Nfreq g) * (1 + 3 * (k + nat n1 * b))))"
    unfolding D(7) by (rule el) simp
  show "nd_get (spectrumTotal sp) (rev (squeeze_index [nat (Nfreq g), nat n1, nat n2] [f, k, b]))
       = Some (doubles_of_bytes bs ! (f + nat (Nfreq g) * (2 + 3 * (k + nat n1 * b))))"
    unfolding D(5) by (rule el) simp
qed

lemma decode_spectrum_shape:
  assumes ok: "decode_spectrum isZip g n1 n2 bs = Inr sp"
    and nn: "0 \<le> Nfreq g" "0 \<le> n1" "0 \<le> n2"
  shows "shape (spectrum_x sp) = rev (filter (\<lambda>n. n \<noteq> 1) [nat (Nfreq g), nat n1, nat n2])"
    and "shape (spectrum_y sp) = rev (filter (\<lambda>n. n \<noteq> 1) [nat (Nfreq g), nat n1, nat n2])"
    and "shape (spectrumTotal sp) = rev (filter (\<lambda>n. n \<noteq> 1) [nat (Nfreq g), nat n1, nat n2])"
  using decode_spectrum_InrD(5-7) [OF ok nn] by simp_all

lemma decode_field_source_independent:
  "length bs mod 8 = 0 \<Longrightarrow>
     decode_field True symt g n1 n2 bs = decode_field False symt g n1 n2 bs"
  by (simp add: decode_field_def read_doubles_def np_frombuffer_def np_fromfile_def)

lemma decode_spectrum_source_independent:
  "length bs mod 8 = 0 \<Longrightarrow>
     decode_spectrum True g n1 n2 bs = decode_spectrum False g n1 n2 bs"
  by (simp add: decode_spectrum_def read_doubles_def np_frombuffer_def np_fromfile_def)




definition example_grid :: grid where
  "example_grid = \<lparr>Ntime = 8, Nfreq = 5, fStep = Fin (1 / 8),
                    Nspace = 8, Nspace2 = 1, Ngrid = 64\<rparr>"





text \<open>
  Claim C4. Both decoders cut the data to the declared count and refuse a blob that is
  too short (\<open>decode_field_enough\<close>, \<open>decode_field_short\<close>, \<open>decode_spectrum_enough\<close>,
  \<open>decode_spectrum_short\<close>), but the archive path refuses trailing data that does not end
  on a double, where the file path ignores it: \<^verbatim>\<open>np.frombuffer\<close> (lines 131, 139, 146)
  raises on a buffer whose size is no multiple of 8, \<^verbatim>\<open>np.fromfile\<close> (lines 133, 141,
  148) drops the incomplete element. Here a field entry of 128 doubles and a spectrum
  entry of 15 doubles, as an 8 by 8 grid needs them, each followed by one byte.
\<close>

theorem C4_archive_refuses_trailing_byte:
  "2 * Ngrid example_grid * 1 * 1 = 128
   \<and> length (replicate 1024 (0::byte) @ [1]) div 8 = 128
   \<and> decode_field True 0 example_grid 1 1 (replicate 1024 0 @ [1]) = Inl ValueError
   \<and> decode_field False 0 example_grid 1 1 (replicate 1024 0 @ [1])
       = decode_field False 0 example_grid 1 1 (replicate 1024 0)
   \<and> decode_field True 0 example_grid 1 1 (replicate 1024 0)
       = decode_field False 0 example_grid 1 1 (replicate 1024 0)
   \<and> \<not> isl (decode_field False 0 example_grid 1 1 (replicate 1024 0))
   \<and> 3 * Nfreq example_grid * 1 * 1 = 15
   \<and> decode_spectrum True example_grid 1 1 (replicate 120 0 @ [1]) = Inl ValueError
   \<and> decode_spectrum False example_grid 1 1 (replicate 120 0 @ [1])
       = decode_spectrum False example_grid 1 1 (replicate 120 0)
   \<and> \<not> isl (decode_spectrum False example_grid 1 1 (replicate 120 0))"
proof -
  let ?e = "replicate 1024 (0::byte)" and ?s = "replicate 120 (0::byte)"
  have g: "Ntime example_grid = 8" "Nspace example_grid = 8" "Nspace2 example_grid = 1"
    "Ngrid example_grid = 64" "Nfreq example_grid = 5"
    by (simp_all add: example_grid_def)
  have a: "decode_field True 0 example_grid 1 1 (?e @ [1]) = Inl ValueError"
    "decode_spectrum True example_grid 1 1 (?s @ [1]) = Inl ValueError"
    by (simp_all add: decode_field_def decode_spectrum_def read_doubles_def np_frombuffer_def)
  have b: "decode_field False 0 example_grid 1 1 (?e @ [1])
       = decode_field False 0 example_grid 1 1 ?e"
    using decode_field_enough(2) [of False "?e @ [1]" example_grid 1 1 0]
    by (simp add: g)
  have c: "decode_spectrum False example_grid 1 1 (?s @ [1])
       = decode_spectrum False example_grid 1 1 ?s"
    using decode_spectrum_enough(2) [of False "?s @ [1]" example_grid 1 1]
    by (simp add: g)
  have d: "\<not> isl (decode_field False 0 example_grid 1 1 ?e)"
    using decode_field_enough(1) [of False ?e example_grid 1 1 0] by (auto simp: g)
  have e: "\<not> isl (decode_spectrum False example_grid 1 1 ?s)"
    using decode_spectrum_enough(1) [of False ?s example_grid 1 1] by (auto simp: g)
  have f: "decode_field True 0 example_grid 1 1 ?e = decode_field False 0 example_grid 1 1 ?e"
    by (rule decode_field_source_independent) simp
  from a b c d e f show ?thesis by (simp add: g)
qed

subsection \<open>The parameter manifest (lines 26--112)\<close>

text \<open>
  \<^verbatim>\<open>readLine\<close> takes the last match of the pattern
  \<^verbatim>\<open>[-+]?[.]?[\d]+(?:,\d\d\d)*[\.]?\d*(?:[eE][-+]?\d+)?\<close> in the line and hands it to
  \<^verbatim>\<open>float\<close>. Every part of the pattern after the first run of digits is optional, so the
  greedy match never has to give a character back, and \<open>match_number\<close> reads the
  pattern from left to right. \<open>findall_from\<close> is \<^verbatim>\<open>re.findall\<close>: matches are taken
  leftmost first and do not overlap (its first argument counts the characters still
  covered by the match before). \<open>py_float\<close> is \<^verbatim>\<open>float\<close> on the strings the pattern
  can produce: a sign, digits with at most one decimal point, an exponent; its value
  here is the decimal the token denotes, which \<^verbatim>\<open>float\<close> rounds to binary64
  (\<open>rnd64\<close>, applied where the value is used). Characters are ASCII.
\<close>

definition parameterNames :: "string list" where
  "parameterNames =
    [''pulseEnergy1'', ''pulseEnergy2'', ''frequency1'', ''frequency2'',
     ''bandwidth1'', ''bandwidth2'', ''superGaussianOrder1'', ''superGaussianOrder2'',
     ''cePhase1'', ''cePhase2'', ''delay1'', ''delay2'', ''gdd1'', ''gdd2'',
     ''tod1'', ''tod2'', ''phaseMaterialIndex1'', ''phaseMaterialIndex2'',
     ''phaseMaterialThickness1'', ''phaseMaterialthickness2'', ''BeamModeParameter'',
     ''beamwaist1'', ''beamwaist2'', ''x01'', ''x02'', ''y01'', ''y02'', ''z01'', ''z02'',
     ''propagationAngle1'', ''propagationAngle2'', ''propagationAnglePhi1'',
     ''propagationAnglePhi2'', ''polarizationAngle1'', ''polarizationAngle2'',
     ''circularity1'', ''circularity2'', ''materialIndex'', ''materialIndexAlternate'',
     ''crystalTheta'', ''crystalPhi'', ''spatialWidth'', ''spatialHeight'', ''spatialStep'',
     ''timeSpan'', ''timeStep'', ''crystalThickness'', ''propagationStep'',
     ''nonlinearAbsorptionStrength'', ''bandGapElectronVolts'', ''effectiveMass'',
     ''drudeGamma'', ''symmetryType'', ''batchIndex'', ''batchDestination'', ''Nsims'',
     ''batchIndex2'', ''batchDestination2'', ''Nsims2'']"

definition is_digit :: "char \<Rightarrow> bool" where
  "is_digit c = (c \<in> set ''0123456789'')"

definition is_sign :: "char \<Rightarrow> bool" where
  "is_sign c = (c = CHR ''+'' \<or> c = CHR ''-'')"

definition is_dot :: "char \<Rightarrow> bool" where
  "is_dot c = (c = CHR ''.'')"

fun opt_char :: "(char \<Rightarrow> bool) \<Rightarrow> string \<Rightarrow> string \<times> string" where
  "opt_char p (c # cs) = (if p c then ([c], cs) else ([], c # cs))"
| "opt_char p [] = ([], [])"

fun thousands :: "string \<Rightarrow> string \<times> string" where
  "thousands (c # d1 # d2 # d3 # cs) =
     (if c = CHR '','' \<and> is_digit d1 \<and> is_digit d2 \<and> is_digit d3
      then (case thousands cs of (g, r) \<Rightarrow> (c # d1 # d2 # d3 # g, r))
      else ([], c # d1 # d2 # d3 # cs))"
| "thousands cs = ([], cs)"

definition exponent :: "string \<Rightarrow> string \<times> string" where
  "exponent s =
     (case s of
        [] \<Rightarrow> ([], [])
      | c # cs \<Rightarrow>
          if c = CHR ''e'' \<or> c = CHR ''E''
          then (case opt_char is_sign cs of
                  (sg, r) \<Rightarrow>
                    if takeWhile is_digit r = [] then ([], s)
                    else (c # sg @ takeWhile is_digit r, dropWhile is_digit r))
          else ([], s))"

definition match_number :: "string \<Rightarrow> string option" where
  "match_number s =
     (case opt_char is_sign s of (sg, r1) \<Rightarrow>
      case opt_char is_dot r1 of (d0, r2) \<Rightarrow>
        if takeWhile is_digit r2 = [] then None
        else (case thousands (dropWhile is_digit r2) of (gs, r3) \<Rightarrow>
              case opt_char is_dot r3 of (d1, r4) \<Rightarrow>
              case exponent (dropWhile is_digit r4) of (ex, r5) \<Rightarrow>
                Some (sg @ d0 @ takeWhile is_digit r2 @ gs @ d1 @ takeWhile is_digit r4 @ ex)))"

fun findall_from :: "nat \<Rightarrow> string \<Rightarrow> string list" where
  "findall_from k [] = []"
| "findall_from (Suc k) (c # cs) = findall_from k cs"
| "findall_from 0 (c # cs) =
     (case match_number (c # cs) of
        None \<Rightarrow> findall_from 0 cs
      | Some tok \<Rightarrow> tok # findall_from (length tok - 1) cs)"

definition re_findall :: "string \<Rightarrow> string list" where
  "re_findall line = findall_from 0 line"

definition digit_value :: "char \<Rightarrow> nat" where
  "digit_value c = of_char c - 48"

definition decimal :: "string \<Rightarrow> nat" where
  "decimal ds = foldl (\<lambda>acc c. 10 * acc + digit_value c) 0 ds"

definition pow10 :: "int \<Rightarrow> real" where
  "pow10 e = (if 0 \<le> e then 10 ^ nat e else 1 / 10 ^ nat (- e))"

definition exponent_value :: "string \<Rightarrow> int option" where
  "exponent_value s =
     (case s of
        [] \<Rightarrow> Some 0
      | c # cs \<Rightarrow>
          if c = CHR ''e'' \<or> c = CHR ''E''
          then (case opt_char is_sign cs of
                  (sg, r) \<Rightarrow>
                    if r \<noteq> [] \<and> list_all is_digit r
                    then Some (if sg = ''-'' then - int (decimal r) else int (decimal r))
                    else None)
          else None)"

definition py_float :: "string \<Rightarrow> py_error + real" where
  "py_float t =
     (case opt_char is_sign t of (sg, r1) \<Rightarrow>
      case opt_char is_dot (dropWhile is_digit r1) of (dot, r2) \<Rightarrow>
        (let ip = takeWhile is_digit r1;
             fp = (if dot = [] then [] else takeWhile is_digit r2);
             r3 = (if dot = [] then r2 else dropWhile is_digit r2)
         in if ip = [] \<and> fp = [] then Inl ValueError
            else (case exponent_value r3 of
                    None \<Rightarrow> Inl ValueError
                  | Some e \<Rightarrow>
                      Inr ((if sg = ''-'' then - 1 else 1)
                           * (of_nat (decimal ip) + of_nat (decimal fp) / 10 ^ length fp)
                           * pow10 e))))"

definition readLine :: "string \<Rightarrow> py_error + real" where
  "readLine line =
     (case re_findall line of
        [] \<Rightarrow> Inl IndexError
      | tok # toks \<Rightarrow> py_float (last (tok # toks)))"

fun read_params :: "string list \<Rightarrow> string list \<Rightarrow> py_error + (string \<times> real) list" where
  "read_params [] lines = Inr []"
| "read_params (name # names) [] = Inl IndexError"
| "read_params (name # names) (line # lines) =
     (case readLine line of
        Inl e \<Rightarrow> Inl e
      | Inr v \<Rightarrow>
          (case read_params names lines of
             Inl e \<Rightarrow> Inl e
           | Inr ps \<Rightarrow> Inr ((name, v) # ps)))"


text \<open>
  The attributes of the object are an association list from attribute names to values,
  as \<^verbatim>\<open>setattr\<close> and \<^verbatim>\<open>getattr\<close> see them. Lines 108--112 replace five of them
  by their integer part, in this order; \<^verbatim>\<open>int\<close> raises on a value that \<^verbatim>\<open>float\<close>
  read as an infinity.
\<close>

definition getattr :: "(string \<times> real) list \<Rightarrow> string \<Rightarrow> py_error + real" where
  "getattr self name =
     (case map_of self name of None \<Rightarrow> Inl AttributeError | Some v \<Rightarrow> Inr v)"

definition setattr :: "(string \<times> real) list \<Rightarrow> string \<Rightarrow> real \<Rightarrow> (string \<times> real) list" where
  "setattr self name v =
     (if name \<in> set (map fst self)
      then map (\<lambda>(n, x). if n = name then (n, v) else (n, x)) self
      else self @ [(name, v)])"

definition cast_int :: "(string \<times> real) list \<Rightarrow> string \<Rightarrow> py_error + (string \<times> real) list" where
  "cast_int self name =
     then_do (getattr self name) (\<lambda>v.
     then_do (py_int (rnd64 v)) (\<lambda>k. Inr (setattr self name (of_int k))))"

definition cast_ints :: "(string \<times> real) list \<Rightarrow> py_error + (string \<times> real) list" where
  "cast_ints self =
     then_do (cast_int self ''Nsims'') (\<lambda>self.
     then_do (cast_int self ''Nsims2'') (\<lambda>self.
     then_do (cast_int self ''symmetryType'') (\<lambda>self.
     then_do (cast_int self ''batchIndex'') (\<lambda>self.
       cast_int self ''batchIndex2''))))"

definition parse_manifest :: "string list \<Rightarrow> py_error + (string \<times> real) list" where
  "parse_manifest lines = then_do (read_params parameterNames lines) cast_ints"

subsection \<open>The batch axis (lines 153--369) and the constructor\<close>

text \<open>
  The source holds the chain of 38 branches twice, once per scan slot; the two copies
  differ only in the names \<^verbatim>\<open>batchIndex2\<close>, \<^verbatim>\<open>batchStart2\<close>,
  \<^verbatim>\<open>batchDestination2\<close>, so \<open>batch_axis\<close> is used for both.
  A branch reads its start attribute first and scales the
  destination afterwards; where no branch matches, \<^verbatim>\<open>self.batchStart\<close> is never
  assigned and the call of \<^verbatim>\<open>np.linspace\<close> raises \<^verbatim>\<open>AttributeError\<close>.
  \<^verbatim>\<open>np.pi\<close> is modelled by \<open>pi\<close>.
\<close>

definition start_only ::
  "(string \<times> real) list \<Rightarrow> string \<Rightarrow> real \<Rightarrow> py_error + (real \<times> real)" where
  "start_only self name dest = then_do (getattr self name) (\<lambda>v. Inr (v, dest))"

definition start_scaled ::
  "(string \<times> real) list \<Rightarrow> string \<Rightarrow> real \<Rightarrow> real \<Rightarrow> py_error + (real \<times> real)" where
  "start_scaled self name factor dest =
     then_do (getattr self name) (\<lambda>v. Inr (v, dest * factor))"

definition batch_axis ::
  "int \<Rightarrow> (string \<times> real) list \<Rightarrow> real \<Rightarrow> py_error + (real \<times> real)" where
  "batch_axis batchIndex self dest =
     (if batchIndex = 0 then Inr (0, dest)
      else if batchIndex = 1 then start_only self ''pulseEnergy1'' dest
      else if batchIndex = 2 then start_only self ''pulseEnergy2'' dest
      else if batchIndex = 3 then start_scaled self ''frequency1'' (10 ^ 12) dest
      else if batchIndex = 4 then start_scaled self ''frequency2'' (10 ^ 12) dest
      else if batchIndex = 5 then start_scaled self ''frequency1'' (10 ^ 12) dest
      else if batchIndex = 6 then start_scaled self ''frequency2'' (10 ^ 12) dest
      else if batchIndex = 7 then start_scaled self ''cePhase1'' pi dest
      else if batchIndex = 8 then start_scaled self ''cePhase2'' pi dest
      else if batchIndex = 9 then start_scaled self ''delay1'' (1 / 10 ^ 15) dest
      else if batchIndex = 10 then start_scaled self ''delay2'' (1 / 10 ^ 15) dest
      else if batchIndex = 11 then start_scaled self ''gdd1'' (1 / 10 ^ 30) dest
      else if batchIndex = 12 then start_scaled self ''gdd2'' (1 / 10 ^ 30) dest
      else if batchIndex = 13 then start_scaled self ''tod1'' (1 / 10 ^ 45) dest
      else if batchIndex = 14 then start_scaled self ''tod2'' (1 / 10 ^ 45) dest
      else if batchIndex = 15 then start_scaled self ''phaseMaterialThickness1'' (1 / 10 ^ 6) dest
      else if batchIndex = 16 then start_scaled self ''phaseMaterialThickness2'' (1 / 10 ^ 6) dest
      else if batchIndex = 17 then start_scaled self ''beamwaist1'' (1 / 10 ^ 6) dest
      else if batchIndex = 18 then start_scaled self ''beamwaist2'' (1 / 10 ^ 6) dest
      else if batchIndex = 19 then start_scaled self ''x01'' (1 / 10 ^ 6) dest
      else if batchIndex = 20 then start_scaled self ''x02'' (1 / 10 ^ 6) dest
      else if batchIndex = 21 then start_scaled self ''z01'' (1 / 10 ^ 6) dest
      else if batchIndex = 22 then start_scaled self ''z02'' (1 / 10 ^ 6) dest
      else if batchIndex = 23 then start_scaled self ''propagationAngle1'' (pi / 180) dest
      else if batchIndex = 24 then start_scaled self ''propagationAngle2'' (pi / 180) dest
      else if batchIndex = 25 then start_scaled self ''polarizationAngle1'' (pi / 180) dest
      else if batchIndex = 26 then start_scaled self ''polarizationAngle2'' (pi / 180) dest
      else if batchIndex = 27 then start_only self ''circularity1'' dest
      else if batchIndex = 28 then start_only self ''circularity2'' dest
      else if batchIndex = 29 then start_scaled self ''crystalTheta'' (pi / 180) dest
      else if batchIndex = 30 then start_scaled self ''crystalPhi'' (pi / 180) dest
      else if batchIndex = 31 then start_only self ''nonlinearAbsorptionStrength'' dest
      else if batchIndex = 32 then start_scaled self ''drudeGamma'' (10 ^ 12) dest
      else if batchIndex = 33 then start_only self ''effectiveMass'' dest
      else if batchIndex = 34 then start_scaled self ''crystalThickness'' (1 / 10 ^ 6) dest
      else if batchIndex = 35 then start_scaled self ''propagationStep'' (1 / 10 ^ 9) dest
      else if batchIndex = 36 then Inr (0, dest)
      else if batchIndex = 37 then Inr (0, dest)
      else Inl AttributeError)"

text \<open>
  The routines below allocate an array whose length is one of the integers derived from
  the manifest. An array of \<open>2 ^ 53\<close> or more elements of eight bytes is larger than any
  address space and the allocation fails; \<open>MAX_ELEMENTS\<close> is that bound.
\<close>

definition MAX_ELEMENTS :: int where
  "MAX_ELEMENTS = 2 ^ 53"

definition np_linspace :: "real \<Rightarrow> real \<Rightarrow> int \<Rightarrow> py_error + real list" where
  "np_linspace start stop num =
     (if num < 0 then Inl ValueError
      else if MAX_ELEMENTS \<le> num then Inl MemoryError
      else if num = 1 then Inr [start]
      else Inr (map (\<lambda>k. start + of_nat k * ((stop - start) / of_int (num - 1)))
                  [0..<nat num]))"

definition batch_vector ::
  "int \<Rightarrow> (string \<times> real) list \<Rightarrow> real \<Rightarrow> int
     \<Rightarrow> py_error + (real \<times> real \<times> real list)" where
  "batch_vector batchIndex self dest nsims =
     then_do (batch_axis batchIndex self dest) (\<lambda>(start, scaled).
     then_do (np_linspace start scaled nsims) (\<lambda>v. Inr (start, scaled, v)))"

datatype pyval = PyFloat real | PyArray "real list"

definition np_arange :: "int \<Rightarrow> py_error + real list" where
  "np_arange n =
     (if MAX_ELEMENTS \<le> n then Inl MemoryError else Inr (map of_nat [0..<nat n]))"

text \<open>
  \<^verbatim>\<open>np.fft.fftfreq(n, d)\<close> computes \<^verbatim>\<open>val = 1.0 / (n * d)\<close> first, in binary64: this
  is where it raises on a zero product, and where it does not raise on \<open>n = 0\<close> when \<open>d\<close>
  is an infinity (the product is NaN). Then it allocates \<open>n\<close> entries, and the entries are
  the integers \<open>0, ..., (n - 1) div 2, - (n div 2), ..., - 1\<close> times \<open>val\<close>.
\<close>

definition np_fftfreq :: "int \<Rightarrow> real \<Rightarrow> py_error + real list" where
  "np_fftfreq n d =
     then_do (int_to_float n) (\<lambda>nf.
     then_do (py_truediv (Fin 1) (fl_mul nf (rnd64 d))) (\<lambda>val.
       if n < 0 then Inl ValueError
       else if MAX_ELEMENTS \<le> n then Inl MemoryError
       else Inr (map (\<lambda>j. of_int j * (1 / (of_int n * d)))
                   ([0..(n - 1) div 2] @ [- (n div 2)..- 1]))))"

definition negate_last :: "real list \<Rightarrow> nat \<Rightarrow> py_error + real list" where
  "negate_last buffer stop =
     (if stop = 0 then Inl IndexError
      else Inr (buffer[stop - 1 := buffer ! (stop - 1) * (- 1)]))"

record result = spectra +
  attrs :: "(string \<times> real) list"
  dims :: grid
  Ext_x :: "double ndarray option"
  Ext_y :: "double ndarray option"
  batchStart :: real
  batchVector :: pyval
  batchStart2 :: real
  batchVector2 :: "real list"
  timeVector :: "real list"
  frequency_buffer :: "real list"
  frequencyVectorSpectrum_stop :: nat
  spaceVector :: "real list"



text \<open>An attribute that lines 108--112 have made an integer, read as one.\<close>

definition int_attr :: "(string \<times> real) list \<Rightarrow> string \<Rightarrow> py_error + int" where
  "int_attr self name = then_do (getattr self name) (\<lambda>v. Inr \<lfloor>v\<rfloor>)"

definition load_field ::
  "bool \<Rightarrow> bool \<Rightarrow> int \<Rightarrow> grid \<Rightarrow> int \<Rightarrow> int \<Rightarrow> py_error + byte list
     \<Rightarrow> py_error + (double ndarray option \<times> double ndarray option)" where
  "load_field loadFieldArray isZip symmetryType g nsims nsims2 ext_file =
     (if loadFieldArray
      then then_do ext_file (\<lambda>bs.
           then_do (decode_field isZip symmetryType g nsims nsims2 bs) (\<lambda>(ex, ey).
             Inr (Some ex, Some ey)))
      else Inr (None, None))"

definition construct ::
  "bool \<Rightarrow> string list \<Rightarrow> py_error + byte list \<Rightarrow> py_error + byte list \<Rightarrow> bool
     \<Rightarrow> py_error + result" where
  "construct isZip lines ext_file spectrum_file loadFieldArray =
     then_do (parse_manifest lines) (\<lambda>self.
     then_do (int_attr self ''Nsims'') (\<lambda>nsims.
     then_do (int_attr self ''Nsims2'') (\<lambda>nsims2.
     then_do (int_attr self ''symmetryType'') (\<lambda>symmetryType.
     then_do (int_attr self ''batchIndex'') (\<lambda>batchIndex.
     then_do (int_attr self ''batchIndex2'') (\<lambda>batchIndex2.
     then_do (getattr self ''timeSpan'') (\<lambda>timeSpan.
     then_do (getattr self ''timeStep'') (\<lambda>timeStep.
     then_do (getattr self ''spatialWidth'') (\<lambda>spatialWidth.
     then_do (getattr self ''spatialHeight'') (\<lambda>spatialHeight.
     then_do (getattr self ''spatialStep'') (\<lambda>spatialStep.
     then_do (derive_grid (rnd64 timeSpan) (rnd64 timeStep) (rnd64 spatialWidth)
                (rnd64 spatialHeight) (rnd64 spatialStep) symmetryType) (\<lambda>g.
     then_do (load_field loadFieldArray isZip symmetryType g nsims nsims2 ext_file)
       (\<lambda>(ex, ey).
     then_do spectrum_file (\<lambda>sbytes.
     then_do (decode_spectrum isZip g nsims nsims2 sbytes) (\<lambda>sp.
     then_do (getattr self ''batchDestination'') (\<lambda>dest.
     then_do (batch_vector batchIndex self dest nsims) (\<lambda>(start, scaled, bv).
     then_do (getattr self ''batchDestination2'') (\<lambda>dest2.
     then_do (batch_vector batchIndex2 (setattr self ''batchDestination'' scaled) dest2 nsims2)
       (\<lambda>(start2, scaled2, bv2).
     then_do (np_arange (Ntime g)) (\<lambda>ts.
     then_do (np_fftfreq (Ntime g) timeStep) (\<lambda>fv.
     then_do (negate_last fv (min (nat (Nfreq g)) (length fv))) (\<lambda>fbuf.
     then_do (np_arange (Nspace g)) (\<lambda>xs.
       Inr \<lparr>spectrumTotal = spectrumTotal sp,
            spectrum_x = spectrum_x sp,
            spectrum_y = spectrum_y sp,
            attrs = setattr (setattr self ''batchDestination'' scaled)
                      ''batchDestination2'' scaled2,
            dims = g,
            Ext_x = ex,
            Ext_y = ey,
            batchStart = start,
            batchVector = PyArray bv,
            batchStart2 = start2,
            batchVector2 = bv2,
            timeVector = map (\<lambda>t. timeStep * t) ts,
            frequency_buffer = fbuf,
            frequencyVectorSpectrum_stop = min (nat (Nfreq g)) (length fv),
            spaceVector =
              map (\<lambda>x. spatialStep * (x - of_int (Nspace g) / 2) + 1 / 4 * spatialStep)
                xs\<rparr>)))))))))))))))))))))))"

subsection \<open>Files, archives and \<^verbatim>\<open>load\<close> (lines 86--98, 502--517)\<close>

text \<open>
  The file system is an association list from path names to nodes; a node is a flat file
  (its bytes) or an archive (its entries, in the order they were added; reading an entry
  by name finds the one added last). The working directory holds the names without a
  slash. The byte image of an archive is not modelled: opening an archive as a flat file
  gives \<open>OutsideModel\<close>. Manifests are ASCII text.
\<close>

datatype fsnode = Raw "byte list" | Zip "(string \<times> byte list) list"

type_synonym filesystem = "(string \<times> fsnode) list"

definition open_flat :: "filesystem \<Rightarrow> string \<Rightarrow> py_error + byte list" where
  "open_flat fs name =
     (case map_of fs name of
        None \<Rightarrow> Inl FileNotFoundError
      | Some (Raw bs) \<Rightarrow> Inr bs
      | Some (Zip entries) \<Rightarrow> Inl OutsideModel)"

definition open_zip :: "filesystem \<Rightarrow> string \<Rightarrow> py_error + (string \<times> byte list) list" where
  "open_zip fs name =
     (case map_of fs name of
        None \<Rightarrow> Inl FileNotFoundError
      | Some (Raw bs) \<Rightarrow> Inl BadZipFile
      | Some (Zip entries) \<Rightarrow> Inr entries)"

definition zip_read :: "(string \<times> byte list) list \<Rightarrow> string \<Rightarrow> py_error + byte list" where
  "zip_read entries name =
     (case map_of (rev entries) name of None \<Rightarrow> Inl KeyError | Some bs \<Rightarrow> Inr bs)"

definition basename :: "string \<Rightarrow> string" where
  "basename p = rev (takeWhile (\<lambda>c. c \<noteq> CHR ''/'') (rev p))"

definition splitext_root :: "string \<Rightarrow> string" where
  "splitext_root p =
     (let name = basename p;
          directory = take (length p - length name) p;
          ext = rev (takeWhile (\<lambda>c. c \<noteq> CHR ''.'') (rev name));
          root = take (length name - length ext - 1) name
      in if CHR ''.'' \<notin> set name \<or> list_all (\<lambda>c. c = CHR ''.'') root then p
         else directory @ root)"

definition text_of :: "byte list \<Rightarrow> string" where
  "text_of bs = map (\<lambda>b. char_of (unat b)) bs"

fun readlines :: "string \<Rightarrow> string list" where
  "readlines [] = []"
| "readlines (c # cs) =
     (if c = CHR 0x0A then [c] # readlines cs
      else (case readlines cs of [] \<Rightarrow> [[c]] | l # ls \<Rightarrow> (c # l) # ls))"

definition load :: "filesystem \<Rightarrow> string \<Rightarrow> bool \<Rightarrow> py_error + result" where
  "load fs filePath loadFieldArray =
     (if suffix ''.zip'' filePath
      then then_do (open_zip fs filePath) (\<lambda>archive.
           let fileBase = splitext_root (basename filePath)
           in then_do (zip_read archive (fileBase @ ''.txt'')) (\<lambda>settings.
                construct True (readlines (text_of settings))
                  (zip_read archive (fileBase @ ''_Ext.dat''))
                  (zip_read archive (fileBase @ ''_spectrum.dat''))
                  loadFieldArray))
      else then_do (open_flat fs filePath) (\<lambda>settings.
           let fileBase = splitext_root filePath
           in construct False (readlines (text_of settings))
                (open_flat fs (fileBase @ ''_Ext.dat''))
                (open_flat fs (fileBase @ ''_spectrum.dat''))
                loadFieldArray))"

subsection \<open>\<^verbatim>\<open>loadSplit\<close> (lines 785--837)\<close>

text \<open>
  Assignment into a slot of an array broadcasts the value as numpy does: the value's
  shape is aligned to the right of the slot's shape, an extent of the value must equal
  the slot's or be 1, and surplus leading extents of the value must be 1.
  \<open>first_shard\<close> is the code before the loop, \<open>add_shard\<close> the body of the loop.
\<close>

fun digits :: "nat \<Rightarrow> string" where
  "digits n = (if n < 10 then [char_of (48 + n)]
               else digits (n div 10) @ [char_of (48 + n mod 10)])"

definition format_04d :: "nat \<Rightarrow> string" where
  "format_04d i = replicate (4 - length (digits i)) (CHR ''0'') @ digits i"

definition np_zeros :: "nat list \<Rightarrow> double ndarray" where
  "np_zeros sh = \<lparr>shape = sh, elems = replicate (prod_list sh) 0\<rparr>"

definition align :: "nat \<Rightarrow> nat list \<Rightarrow> nat \<Rightarrow> nat list" where
  "align n xs fill = replicate (n - length xs) fill @ drop (length xs - n) xs"

definition broadcastable :: "nat list \<Rightarrow> nat list \<Rightarrow> bool" where
  "broadcastable vs ts = list_all2 (\<lambda>vd td. vd = td \<or> vd = 1) vs (align (length vs) ts 1)"

definition broadcast_index :: "nat list \<Rightarrow> nat list \<Rightarrow> nat list" where
  "broadcast_index vs idx =
     map (\<lambda>(vd, i). if vd = 1 then 0 else i) (zip vs (align (length vs) idx 0))"

definition broadcast_get :: "'a ndarray \<Rightarrow> nat list \<Rightarrow> 'a" where
  "broadcast_get v idx = elems v ! offsetF (shape v) (broadcast_index (shape v) idx)"

definition set_last_axis ::
  "'a ndarray \<Rightarrow> nat \<Rightarrow> 'a ndarray \<Rightarrow> py_error + 'a ndarray" where
  "set_last_axis a i v =
     (if shape a = [] \<or> last (shape a) \<le> i then Inl IndexError
      else if \<not> broadcastable (shape v) (butlast (shape a)) then Inl ValueError
      else Inr (tabulate (shape a)
                  (\<lambda>idx. if last idx = i then broadcast_get v (butlast idx)
                          else elems a ! offsetF (shape a) idx)))"

definition set_first_axis ::
  "'a ndarray \<Rightarrow> nat \<Rightarrow> 'a ndarray \<Rightarrow> py_error + 'a ndarray" where
  "set_first_axis a i v =
     (if shape a = [] \<or> hd (shape a) \<le> i then Inl IndexError
      else if \<not> broadcastable (shape v) (tl (shape a)) then Inl ValueError
      else Inr (tabulate (shape a)
                  (\<lambda>idx. if hd idx = i then broadcast_get v (tl idx)
                          else elems a ! offsetF (shape a) idx)))"

definition shape_at :: "'a ndarray \<Rightarrow> nat \<Rightarrow> py_error + nat" where
  "shape_at a k = (if k < length (shape a) then Inr (shape a ! k) else Inl IndexError)"

definition np_append :: "pyval \<Rightarrow> real \<Rightarrow> pyval" where
  "np_append v x = (case v of PyFloat a \<Rightarrow> PyArray [a, x] | PyArray xs \<Rightarrow> PyArray (xs @ [x]))"

definition array_attributes :: "string list" where
  "array_attributes =
     [''Ext_x'', ''Ext_y'', ''spectrumTotal'', ''spectrum_x'', ''spectrum_y'', ''batchVector'',
      ''batchVector2'', ''timeVector'', ''frequencyVector'', ''frequencyVectorSpectrum'',
      ''spaceVector'']"

definition result_getattr :: "result \<Rightarrow> string \<Rightarrow> py_error + real" where
  "result_getattr r name =
     (case map_of (attrs r) name of
        Some v \<Rightarrow> Inr v
      | None \<Rightarrow>
          if name = ''Ntime'' then Inr (of_int (Ntime (dims r)))
          else if name = ''Nfreq'' then Inr (of_int (Nfreq (dims r)))
          else if name = ''fStep''
          then (case fStep (dims r) of Fin x \<Rightarrow> Inr x | _ \<Rightarrow> Inl OutsideModel)
          else if name = ''Nspace'' then Inr (of_int (Nspace (dims r)))
          else if name = ''Nspace2'' then Inr (of_int (Nspace2 (dims r)))
          else if name = ''Ngrid'' then Inr (of_int (Ngrid (dims r)))
          else if name = ''batchStart'' then Inr (batchStart r)
          else if name = ''batchStart2'' then Inr (batchStart2 r)
          else if name \<in> set array_attributes then Inl OutsideModel
          else Inl AttributeError)"

definition field_of :: "double ndarray option \<Rightarrow> py_error + double ndarray" where
  "field_of x = (case x of None \<Rightarrow> Inl AttributeError | Some a \<Rightarrow> Inr a)"

definition stack_shape :: "double ndarray \<Rightarrow> nat \<Rightarrow> py_error + nat list" where
  "stack_shape a ntotal =
     (if length (shape a) = 2
      then then_do (shape_at a 0) (\<lambda>s0. then_do (shape_at a 1) (\<lambda>s1. Inr [s0, s1, ntotal]))
      else then_do (shape_at a 0) (\<lambda>s0. then_do (shape_at a 1) (\<lambda>s1.
           then_do (shape_at a 2) (\<lambda>s2. Inr [s0, s1, s2, ntotal]))))"

definition first_shard :: "result \<Rightarrow> int \<Rightarrow> string \<Rightarrow> py_error + result" where
  "first_shard base Ntotal batchType =
     (if Ntotal < 0 then Inl ValueError
      else
     then_do (field_of (Ext_x base)) (\<lambda>tmpx.
     then_do (stack_shape tmpx (nat Ntotal)) (\<lambda>shx.
     then_do (set_last_axis (np_zeros shx) 0 tmpx) (\<lambda>ex.
     then_do (field_of (Ext_y base)) (\<lambda>tmpy.
     then_do (set_last_axis (np_zeros (shape ex)) 0 tmpy) (\<lambda>ey.
     then_do (shape_at (spectrum_x base) 0) (\<lambda>f0.
     then_do (set_first_axis (np_zeros [nat Ntotal, f0]) 0 (spectrum_x base)) (\<lambda>sx.
     then_do (set_first_axis (np_zeros (shape sx)) 0 (spectrum_y base)) (\<lambda>sy.
     then_do (set_first_axis (np_zeros (shape sx)) 0 (spectrumTotal base)) (\<lambda>st.
     then_do (result_getattr
                 (base\<lparr>Ext_x := Some ex, Ext_y := Some ey, spectrum_x := sx,
                        spectrum_y := sy, spectrumTotal := st\<rparr>) batchType) (\<lambda>bv.
       Inr (base\<lparr>Ext_x := Some ex, Ext_y := Some ey, spectrum_x := sx,
                   spectrum_y := sy, spectrumTotal := st,
                   batchVector := PyFloat bv, batchStart := bv\<rparr>))))))))))))"

definition add_shard :: "result \<Rightarrow> nat \<Rightarrow> result \<Rightarrow> string \<Rightarrow> py_error + result" where
  "add_shard base i new batchType =
     then_do (field_of (Ext_x base)) (\<lambda>bx.
     then_do (field_of (Ext_x new)) (\<lambda>nx.
     then_do (set_last_axis bx i nx) (\<lambda>ex.
     then_do (field_of (Ext_y base)) (\<lambda>by.
     then_do (field_of (Ext_y new)) (\<lambda>ny.
     then_do (set_last_axis by i ny) (\<lambda>ey.
     then_do (set_first_axis (spectrum_x base) i (spectrum_x new)) (\<lambda>sx.
     then_do (set_first_axis (spectrum_y base) i (spectrum_y new)) (\<lambda>sy.
     then_do (set_first_axis (spectrumTotal base) i (spectrumTotal new)) (\<lambda>st.
     then_do (result_getattr
                 (base\<lparr>Ext_x := Some ex, Ext_y := Some ey, spectrum_x := sx,
                        spectrum_y := sy, spectrumTotal := st\<rparr>) batchType) (\<lambda>bv.
       Inr (base\<lparr>Ext_x := Some ex, Ext_y := Some ey, spectrum_x := sx,
                   spectrum_y := sy, spectrumTotal := st,
                   batchVector := np_append (batchVector base) bv\<rparr>)))))))))))"

fun loadSplit_loop ::
  "filesystem \<Rightarrow> string list \<Rightarrow> string \<Rightarrow> result \<Rightarrow> nat list \<Rightarrow> py_error + result" where
  "loadSplit_loop fs names batchType base [] = Inr base"
| "loadSplit_loop fs names batchType base (i # rest) =
     then_do (load fs (names ! i) True) (\<lambda>new.
     then_do (add_shard base i new batchType) (\<lambda>base'.
       loadSplit_loop fs names batchType base' rest))"

definition loadSplit :: "filesystem \<Rightarrow> string \<Rightarrow> int \<Rightarrow> string \<Rightarrow> py_error + result" where
  "loadSplit fs baseName Ntotal batchType =
     (let listOfFileNames = map (\<lambda>i. baseName @ format_04d i @ ''.txt'') [0..<nat Ntotal]
      in if listOfFileNames = [] then Inl IndexError
         else then_do (load fs (listOfFileNames ! 0) True) (\<lambda>base.
              then_do (first_shard base Ntotal batchType) (\<lambda>base'.
                loadSplit_loop fs listOfFileNames batchType base' [1..<nat Ntotal])))"

subsection \<open>\<^verbatim>\<open>fuseBinaries\<close> and \<^verbatim>\<open>fuseZips\<close> (lines 839--903)\<close>

text \<open>
  \<open>copy_pieces\<close> is the inner loop of \<^verbatim>\<open>fuseFile\<close>: it reads pieces of at most
  \<open>CHUNK\<close> bytes until a read returns nothing. In \<^verbatim>\<open>fuseZips\<close> the two temporary
  files are the accumulators \<open>Ext\<close> and \<open>spectrum\<close> of \<open>read_shards\<close>; the destination
  archive is opened for appending before the shards are read, so it exists while they
  are read, and receives the spectrum entry first.
\<close>

definition listdir :: "filesystem \<Rightarrow> string list" where
  "listdir fs = filter (\<lambda>name. CHR ''/'' \<notin> set name) (map fst fs)"

definition remove_file :: "string \<Rightarrow> filesystem \<Rightarrow> filesystem" where
  "remove_file name fs = filter (\<lambda>(n, f). n \<noteq> name) fs"

definition write_file :: "string \<Rightarrow> fsnode \<Rightarrow> filesystem \<Rightarrow> filesystem" where
  "write_file name f fs = (name, f) # remove_file name fs"

definition CHUNK :: nat where
  "CHUNK = 1024 * 1024 * 128"

function copy_pieces :: "nat \<Rightarrow> byte list \<Rightarrow> byte list \<Rightarrow> byte list" where
  "copy_pieces n current output =
     (if take n current = [] then output
      else copy_pieces n (drop n current) (output @ take n current))"
  by pat_completeness auto
termination
  by (relation "measure (\<lambda>(n, current, output). length current)") auto

declare copy_pieces.simps [simp del]

fun copy_files :: "filesystem \<Rightarrow> string list \<Rightarrow> byte list \<Rightarrow> py_error + byte list" where
  "copy_files fs [] output = Inr output"
| "copy_files fs (name # names) output =
     then_do (open_flat fs name) (\<lambda>current.
       copy_files fs names (copy_pieces CHUNK current output))"

definition fuseFile :: "string \<Rightarrow> string \<Rightarrow> filesystem \<Rightarrow> py_error + filesystem" where
  "fuseFile baseName ending fs =
     (let output_name = baseName @ ending;
          fs1 = (if output_name \<in> set (listdir fs) then remove_file output_name fs else fs);
          files = sort (filter (\<lambda>filename. prefix baseName filename \<and> suffix ending filename)
                          (listdir fs1))
      in then_do (copy_files (write_file output_name (Raw []) fs1) files [])
           (\<lambda>output. Inr (write_file output_name (Raw output) fs1)))"

definition fuseBinaries :: "string \<Rightarrow> filesystem \<Rightarrow> py_error + filesystem" where
  "fuseBinaries outputTextFile fs =
     (let base = splitext_root (basename outputTextFile)
      in then_do (fuseFile base ''_Ext.dat'' fs) (\<lambda>fs1.
           fuseFile base ''_spectrum.dat'' fs1))"

fun read_shards ::
  "filesystem \<Rightarrow> string list \<Rightarrow> byte list \<Rightarrow> byte list \<Rightarrow> py_error + (byte list \<times> byte list)" where
  "read_shards fs [] Ext spectrum = Inr (Ext, spectrum)"
| "read_shards fs (sourceFile # files) Ext spectrum =
     then_do (open_zip fs sourceFile) (\<lambda>sourceZip.
     then_do (zip_read sourceZip (splitext_root (basename sourceFile) @ ''_spectrum.dat''))
       (\<lambda>s.
     then_do (zip_read sourceZip (splitext_root (basename sourceFile) @ ''_Ext.dat''))
       (\<lambda>e.
       read_shards fs files (Ext @ e) (spectrum @ s))))"

definition open_zip_append :: "filesystem \<Rightarrow> string \<Rightarrow> (string \<times> byte list) list" where
  "open_zip_append fs name =
     (case map_of fs name of Some (Zip entries) \<Rightarrow> entries | _ \<Rightarrow> [])"

definition fuseZips :: "string \<Rightarrow> filesystem \<Rightarrow> py_error + filesystem" where
  "fuseZips outputFile fs =
     (let ending = ''.zip'';
          baseName = splitext_root (basename outputFile);
          destination = splitext_root outputFile @ ending;
          files = sort (filter (\<lambda>filename. prefix baseName filename \<and> suffix ending filename
                                    \<and> filename \<noteq> destination) (listdir fs));
          existing = open_zip_append fs destination
      in then_do (read_shards (write_file destination (Zip existing) fs) files [] [])
           (\<lambda>(Ext, spectrum).
              Inr (write_file destination
                     (Zip (existing @ [(baseName @ ''_spectrum.dat'', spectrum),
                                       (baseName @ ''_Ext.dat'', Ext)])) fs)))"

subsection \<open>Properties of the constructor\<close>







subsection \<open>A small run, for the worked instances\<close>





















end
